theory Spec2Isabelle
  imports Complex_Main
begin

section \<open>Floating-point values\<close>

text \<open>
  The renderer computes in C++ \<open>float\<close>.  A value is modelled as an exact real number or
  one of the three special values of IEEE arithmetic.  Rounding, overflow to infinity and
  the sign of zero are outside the model: a zero divisor is read as \<open>+0\<close>.  The special
  values are kept because the source relies on them: the depth buffer is cleared to
  \<open>-INFINITY\<close>, and a scanline of \<open>fillPolygon\<close> can divide zero by zero.
\<close>

datatype float = Fin real | PInf | NInf | NaN

fun fneg :: "float \<Rightarrow> float" where
  "fneg (Fin a) = Fin (- a)"
| "fneg PInf = NInf"
| "fneg NInf = PInf"
| "fneg NaN = NaN"

fun fadd :: "float \<Rightarrow> float \<Rightarrow> float" where
  "fadd (Fin a) (Fin b) = Fin (a + b)"
| "fadd NaN _ = NaN"
| "fadd _ NaN = NaN"
| "fadd PInf NInf = NaN"
| "fadd NInf PInf = NaN"
| "fadd PInf _ = PInf"
| "fadd _ PInf = PInf"
| "fadd NInf _ = NInf"
| "fadd _ NInf = NInf"

definition fsub :: "float \<Rightarrow> float \<Rightarrow> float" where
  "fsub a b = fadd a (fneg b)"

fun fmul :: "float \<Rightarrow> float \<Rightarrow> float" where
  "fmul (Fin a) (Fin b) = Fin (a * b)"
| "fmul NaN _ = NaN"
| "fmul _ NaN = NaN"
| "fmul PInf (Fin b) = (if 0 < b then PInf else if b < 0 then NInf else NaN)"
| "fmul NInf (Fin b) = (if 0 < b then NInf else if b < 0 then PInf else NaN)"
| "fmul (Fin a) PInf = (if 0 < a then PInf else if a < 0 then NInf else NaN)"
| "fmul (Fin a) NInf = (if 0 < a then NInf else if a < 0 then PInf else NaN)"
| "fmul PInf PInf = PInf"
| "fmul PInf NInf = NInf"
| "fmul NInf PInf = NInf"
| "fmul NInf NInf = PInf"

fun fdiv :: "float \<Rightarrow> float \<Rightarrow> float" where
  "fdiv (Fin a) (Fin b) =
     (if b \<noteq> 0 then Fin (a / b)
      else if 0 < a then PInf else if a < 0 then NInf else NaN)"
| "fdiv NaN _ = NaN"
| "fdiv _ NaN = NaN"
| "fdiv (Fin a) PInf = Fin 0"
| "fdiv (Fin a) NInf = Fin 0"
| "fdiv PInf (Fin b) = (if 0 \<le> b then PInf else NInf)"
| "fdiv NInf (Fin b) = (if 0 \<le> b then NInf else PInf)"
| "fdiv PInf PInf = NaN"
| "fdiv PInf NInf = NaN"
| "fdiv NInf PInf = NaN"
| "fdiv NInf NInf = NaN"

text \<open>Comparisons: every comparison with \<open>NaN\<close> is false.\<close>

fun flt :: "float \<Rightarrow> float \<Rightarrow> bool" where
  "flt (Fin a) (Fin b) = (a < b)"
| "flt NaN _ = False"
| "flt _ NaN = False"
| "flt _ NInf = False"
| "flt PInf _ = False"
| "flt NInf _ = True"
| "flt _ PInf = True"

definition fgt :: "float \<Rightarrow> float \<Rightarrow> bool" where
  "fgt a b = flt b a"

fun fle :: "float \<Rightarrow> float \<Rightarrow> bool" where
  "fle (Fin a) (Fin b) = (a \<le> b)"
| "fle NaN _ = False"
| "fle _ NaN = False"
| "fle NInf _ = True"
| "fle _ PInf = True"
| "fle _ NInf = False"
| "fle PInf _ = False"

definition feq :: "float \<Rightarrow> float \<Rightarrow> bool" where
  "feq a b = (a = b \<and> a \<noteq> NaN)"

fun fabs :: "float \<Rightarrow> float" where
  "fabs (Fin a) = Fin \<bar>a\<bar>"
| "fabs PInf = PInf"
| "fabs NInf = PInf"
| "fabs NaN = NaN"

fun fsqrt :: "float \<Rightarrow> float" where
  "fsqrt (Fin a) = (if 0 \<le> a then Fin (sqrt a) else NaN)"
| "fsqrt PInf = PInf"
| "fsqrt NInf = NaN"
| "fsqrt NaN = NaN"

fun fsin :: "float \<Rightarrow> float" where
  "fsin (Fin a) = Fin (sin a)"
| "fsin _ = NaN"

fun fcos :: "float \<Rightarrow> float" where
  "fcos (Fin a) = Fin (cos a)"
| "fcos _ = NaN"

definition ftan :: "float \<Rightarrow> float" where
  "ftan a = fdiv (fsin a) (fcos a)"

text \<open>An \<open>int\<close> operand of a mixed expression is converted to \<open>float\<close> (exactly, here).\<close>

definition of_int_f :: "int \<Rightarrow> float" where
  "of_int_f i = Fin (of_int i)"

section \<open>Errors\<close>

text \<open>
  The source signals nothing itself.  Three things can go wrong underneath it, and each is
  a value of the model:
  \<^item> \<open>IndexOutOfRange\<close>: the managed depth-buffer array is indexed outside its extents
    (the runtime throws);
  \<^item> \<open>InvalidCast\<close>: a \<open>float\<close> is converted to \<open>int\<close> and its truncated value is not a
    value of \<open>int\<close> (a \<open>NaN\<close>, an infinity, a number beyond \<open>INT_MIN .. INT_MAX\<close>):
    undefined in C++;
  \<^item> \<open>Unbounded\<close>: an \<open>int\<close> counter is incremented at \<open>INT_MAX\<close> (signed overflow,
    undefined in C++), or a loop never returns.
  An \<open>int\<close> is 32 bits wide.  Every converted value is checked against that range, and so
  is the column counter of \<open>fillPolygon\<close>, the one counter of that function that can leave
  it.  The integer arithmetic of \<open>drawLine\<close> is modelled without overflow: lines whose
  deltas exceed \<open>2^30\<close> pixels are outside the model.
\<close>

datatype error = IndexOutOfRange | InvalidCast | Unbounded

definition bindE :: "error + 'a \<Rightarrow> ('a \<Rightarrow> error + 'b) \<Rightarrow> error + 'b" where
  "bindE m f = (case m of Inl e \<Rightarrow> Inl e | Inr v \<Rightarrow> f v)"

definition INT_MIN :: int where
  "INT_MIN = - 2147483648"

definition INT_MAX :: int where
  "INT_MAX = 2147483647"

text \<open>
  Conversion \<open>float \<rightarrow> int\<close> truncates towards zero; it is defined when the truncated
  value is a value of \<open>int\<close>.
\<close>

fun to_int :: "float \<Rightarrow> error + int" where
  "to_int (Fin a) =
     (let n = (if 0 \<le> a then \<lfloor>a\<rfloor> else \<lceil>a\<rceil>)
      in if INT_MIN \<le> n \<and> n \<le> INT_MAX then Inr n else Inl InvalidCast)"
| "to_int _ = Inl InvalidCast"

section \<open>Vectors and matrices\<close>

text \<open>
  Modelled from the spec: the headers that declare \<open>Vector3\<close>, \<open>Vector4\<close> and \<open>Matrix4\<close>
  are not among the sources.  The spec gives them as tuples of floats with the usual
  arithmetic, a homogeneous divide, and a row-major 4x4 grid whose default value is the
  identity, constructible from a flat sequence of 16 elements, with standard products.
\<close>

datatype Vector3 = Vector3 (x3: float) (y3: float) (z3: float)

datatype Vector4 = Vector4 (x4: float) (y4: float) (z4: float) (w4: float)

definition add3 :: "Vector3 \<Rightarrow> Vector3 \<Rightarrow> Vector3" where
  "add3 a b = Vector3 (fadd (x3 a) (x3 b)) (fadd (y3 a) (y3 b)) (fadd (z3 a) (z3 b))"

definition sub3 :: "Vector3 \<Rightarrow> Vector3 \<Rightarrow> Vector3" where
  "sub3 a b = Vector3 (fsub (x3 a) (x3 b)) (fsub (y3 a) (y3 b)) (fsub (z3 a) (z3 b))"

definition scale3 :: "Vector3 \<Rightarrow> float \<Rightarrow> Vector3" where
  "scale3 a k = Vector3 (fmul (x3 a) k) (fmul (y3 a) k) (fmul (z3 a) k)"

definition dot :: "Vector3 \<Rightarrow> Vector3 \<Rightarrow> float" where
  "dot a b = fadd (fadd (fmul (x3 a) (x3 b)) (fmul (y3 a) (y3 b))) (fmul (z3 a) (z3 b))"

definition cross :: "Vector3 \<Rightarrow> Vector3 \<Rightarrow> Vector3" where
  "cross a b = Vector3
     (fsub (fmul (y3 a) (z3 b)) (fmul (z3 a) (y3 b)))
     (fsub (fmul (z3 a) (x3 b)) (fmul (x3 a) (z3 b)))
     (fsub (fmul (x3 a) (y3 b)) (fmul (y3 a) (x3 b)))"

definition len :: "Vector3 \<Rightarrow> float" where
  "len a = fsqrt (dot a a)"

definition normalized :: "Vector3 \<Rightarrow> Vector3" where
  "normalized a = Vector3 (fdiv (x3 a) (len a)) (fdiv (y3 a) (len a)) (fdiv (z3 a) (len a))"

definition fromHomogeneous :: "Vector4 \<Rightarrow> Vector3" where
  "fromHomogeneous v = Vector3 (fdiv (x4 v) (w4 v)) (fdiv (y4 v) (w4 v)) (fdiv (z4 v) (w4 v))"

datatype Matrix4 = Matrix4 (elems: "float list")

definition identity4 :: Matrix4 where
  "identity4 = Matrix4
     [Fin 1, Fin 0, Fin 0, Fin 0,
      Fin 0, Fin 1, Fin 0, Fin 0,
      Fin 0, Fin 0, Fin 1, Fin 0,
      Fin 0, Fin 0, Fin 0, Fin 1]"

definition get4 :: "Matrix4 \<Rightarrow> nat \<Rightarrow> nat \<Rightarrow> float" where
  "get4 m i j = elems m ! (4 * i + j)"

definition set4 :: "Matrix4 \<Rightarrow> nat \<Rightarrow> nat \<Rightarrow> float \<Rightarrow> Matrix4" where
  "set4 m i j v = Matrix4 ((elems m)[4 * i + j := v])"

definition cell4 :: "Matrix4 \<Rightarrow> Matrix4 \<Rightarrow> nat \<Rightarrow> nat \<Rightarrow> float" where
  "cell4 a b i j =
     fadd (fadd (fadd (fmul (get4 a i 0) (get4 b 0 j)) (fmul (get4 a i 1) (get4 b 1 j)))
                (fmul (get4 a i 2) (get4 b 2 j)))
          (fmul (get4 a i 3) (get4 b 3 j))"

definition mul4 :: "Matrix4 \<Rightarrow> Matrix4 \<Rightarrow> Matrix4" where
  "mul4 a b = Matrix4 (concat (map (\<lambda>i. map (cell4 a b i) [0, 1, 2, 3]) [0, 1, 2, 3]))"

definition row4 :: "Matrix4 \<Rightarrow> nat \<Rightarrow> Vector4 \<Rightarrow> float" where
  "row4 m i v =
     fadd (fadd (fadd (fmul (get4 m i 0) (x4 v)) (fmul (get4 m i 1) (y4 v)))
                (fmul (get4 m i 2) (z4 v)))
          (fmul (get4 m i 3) (w4 v))"

definition mulv4 :: "Matrix4 \<Rightarrow> Vector4 \<Rightarrow> Vector4" where
  "mulv4 m v = Vector4 (row4 m 0 v) (row4 m 1 v) (row4 m 2 v) (row4 m 3 v)"

section \<open>Transform builders (Matrix.cpp)\<close>

text \<open>
  Modelled from the spec: the constant \<open>PI\<close> is declared in a header that is not among
  the sources; the spec gives the conversion as \<open>degrees * \<pi> / 180\<close>.
\<close>

definition degToRad :: "float \<Rightarrow> float" where
  "degToRad degrees = fdiv (fmul degrees (Fin pi)) (Fin 180)"

definition rotateX :: "Matrix4 \<Rightarrow> float \<Rightarrow> Matrix4" where
  "rotateX mat degrees =
     (let angle = degToRad degrees;
          m1 = set4 identity4 1 1 (fcos angle);
          m2 = set4 m1 2 1 (fneg (fsin angle));
          m3 = set4 m2 1 2 (fsin angle);
          rotationMatrix = set4 m3 2 2 (fcos angle)
      in mul4 rotationMatrix mat)"

definition rotateY :: "Matrix4 \<Rightarrow> float \<Rightarrow> Matrix4" where
  "rotateY mat degrees =
     (let angle = degToRad degrees;
          m1 = set4 identity4 0 0 (fcos angle);
          m2 = set4 m1 0 2 (fsin angle);
          m3 = set4 m2 2 0 (fneg (fsin angle));
          rotationMatrix = set4 m3 2 2 (fcos angle)
      in mul4 rotationMatrix mat)"

definition rotateZ :: "Matrix4 \<Rightarrow> float \<Rightarrow> Matrix4" where
  "rotateZ mat degrees =
     (let angle = degToRad degrees;
          m1 = set4 identity4 0 0 (fcos angle);
          m2 = set4 m1 0 1 (fneg (fsin angle));
          m3 = set4 m2 1 0 (fsin angle);
          rotationMatrix = set4 m3 1 1 (fcos angle)
      in mul4 rotationMatrix mat)"

definition lookAt :: "Vector3 \<Rightarrow> Vector3 \<Rightarrow> Vector3 \<Rightarrow> Matrix4" where
  "lookAt position target up =
     (let direction = normalized (sub3 position target);
          cameraRight = normalized (cross (normalized up) direction);
          cameraUp = cross direction cameraRight;
          rotational = Matrix4
            [x3 cameraRight, y3 cameraRight, z3 cameraRight, Fin 0,
             x3 cameraUp, y3 cameraUp, z3 cameraUp, Fin 0,
             x3 direction, y3 direction, z3 direction, Fin 0,
             Fin 0, Fin 0, Fin 0, Fin 1];
          positional = Matrix4
            [Fin 1, Fin 0, Fin 0, fneg (x3 position),
             Fin 0, Fin 1, Fin 0, fneg (y3 position),
             Fin 0, Fin 0, Fin 1, fneg (z3 position),
             Fin 0, Fin 0, Fin 0, Fin 1]
      in mul4 rotational positional)"

definition perspective :: "float \<Rightarrow> float \<Rightarrow> float \<Rightarrow> float \<Rightarrow> Matrix4" where
  "perspective fov aspect near far =
     (let top = fmul near (ftan (fdiv (degToRad fov) (Fin 2)));
          bottom = fneg top;
          right = fmul top aspect;
          left = fneg right;
          p1 = set4 identity4 0 0 (fdiv (fmul (Fin 2) near) (fsub right left));
          p2 = set4 p1 0 2 (fdiv (fadd right left) (fsub right left));
          p3 = set4 p2 1 1 (fdiv (fmul (Fin 2) near) (fsub top bottom));
          p4 = set4 p3 2 2 (fdiv (fneg (fadd far near)) (fsub far near));
          p5 = set4 p4 3 3 (Fin 0);
          p6 = set4 p5 2 3 (fdiv (fmul (fmul (Fin (- 2)) far) near) (fsub far near));
          proj = set4 p6 3 2 (Fin (- 1))
      in proj)"

definition barycentric :: "Vector3 \<Rightarrow> Vector3 \<Rightarrow> Vector3 \<Rightarrow> Vector3 \<Rightarrow> Vector3" where
  "barycentric p a b c =
     (let v0 = sub3 b a; v1 = sub3 c a; v2 = sub3 p a;
          d00 = dot v0 v0;
          d01 = dot v0 v1;
          d11 = dot v1 v1;
          d20 = dot v2 v0;
          d21 = dot v2 v1;
          denom = fsub (fmul d00 d11) (fmul d01 d01);
          v = fdiv (fsub (fmul d11 d20) (fmul d01 d21)) denom;
          w = fdiv (fsub (fmul d00 d21) (fmul d01 d20)) denom;
          u = fsub (fsub (Fin 1) v) w
      in Vector3 u v w)"

section \<open>The renderer (Renderer.cpp)\<close>

text \<open>
  A brush is its colour.  The drawing surface (\<open>Graphics\<close>) is outside the sources; it is
  modelled as the sequence of \<open>FillRectangle(brush, x, y, width, height)\<close> calls it
  receives, oldest first.
\<close>

datatype Color = White | Black | Yellow | LightBlue | Blue

datatype gop = FillRectangle Color int int int int

text \<open>
  The renderer's state.  \<open>zbuffer\<close> holds the cells of the managed two-dimensional array,
  \<open>zlen0\<close> and \<open>zlen1\<close> its extents (\<open>GetLength(0)\<close>, \<open>GetLength(1)\<close>); the constructor
  allocates it with the viewport's size, and \<open>setViewport\<close> changes the viewport alone.
\<close>

record Renderer =
  viewportX :: int
  viewportY :: int
  zlen0 :: int
  zlen1 :: int
  zbuffer :: "int \<times> int \<Rightarrow> float"
  wfBrush :: Color
  graphics :: "gop list"

definition setViewport :: "Renderer \<Rightarrow> int \<Rightarrow> int \<Rightarrow> Renderer" where
  "setViewport r width height = r\<lparr>viewportX := width, viewportY := height\<rparr>"

definition sign :: "int \<Rightarrow> int" where
  "sign x = (if x > 0 then 1 else 0) - (if x < 0 then 1 else 0)"

definition drawPoint :: "Renderer \<Rightarrow> int \<Rightarrow> int \<Rightarrow> float \<Rightarrow> Color \<Rightarrow> error + Renderer" where
  "drawPoint r x y z br =
     (if x > 0 \<and> x < viewportX r \<and> y > 0 \<and> y < viewportY r then
        (if x < zlen0 r \<and> y < zlen1 r then
           (if fgt (fdiv (Fin 1) z) (zbuffer r (x, y)) then
              Inr (r\<lparr>zbuffer := (zbuffer r)((x, y) := fdiv (Fin 1) z),
                      graphics := graphics r @ [FillRectangle br x y 2 2]\<rparr>)
            else Inr r)
         else Inl IndexOutOfRange)
      else Inr r)"

subsection \<open>drawLine\<close>

text \<open>
  The inner \<open>while (e >= 0)\<close> loop.  It is reached only inside the \<open>for\<close> loop, where
  \<open>1 \<le> i \<le> dx\<close>; on its own it need not return, and not returning is \<open>None\<close>.
\<close>

partial_function (option) drawLine_while ::
  "bool \<Rightarrow> int \<Rightarrow> int \<Rightarrow> int \<Rightarrow> int \<Rightarrow> int \<Rightarrow> int \<Rightarrow> (int \<times> int \<times> int) option" where
  "drawLine_while isSwap sx sy dx x y e =
     (if e \<ge> 0 then
        drawLine_while isSwap sx sy dx
          (if isSwap then x + sx else x) (if isSwap then y else y + sy) (e - 2 * dx)
      else Some (x, y, e))"

text \<open>
  The \<open>for\<close> loop of \<open>drawLine\<close>.  The call \<open>drawPoint(x, y, z, wfBrush)\<close> is the parameter
  \<open>plot\<close>, so that the same loop can be run on the renderer and on a log of the submitted
  pixels.
\<close>

function drawLine_for ::
  "('s \<Rightarrow> int \<Rightarrow> int \<Rightarrow> float \<Rightarrow> error + 's) \<Rightarrow> Vector3 \<Rightarrow> Vector3 \<Rightarrow> bool \<Rightarrow> int \<Rightarrow> int \<Rightarrow>
   int \<Rightarrow> int \<Rightarrow> int \<Rightarrow> int \<Rightarrow> int \<Rightarrow> int \<Rightarrow> 's \<Rightarrow> error + 's" where
  "drawLine_for plot from to isSwap sx sy dx dy i x y e s =
     (if i \<le> dx then
        (let t = fdiv (len (sub3 (Vector3 (of_int_f x) (of_int_f y) (Fin 0))
                                 (Vector3 (x3 from) (y3 from) (Fin 0))))
                      (len (sub3 (Vector3 (x3 to) (y3 to) (Fin 0))
                                 (Vector3 (x3 from) (y3 from) (Fin 0))));
             z = fadd (fmul (fsub (Fin 1) t) (z3 from)) (fmul t (z3 to))
         in bindE (plot s x y z) (\<lambda>s'.
              case drawLine_while isSwap sx sy dx x y e of
                None \<Rightarrow> Inl Unbounded
              | Some (x', y', e') \<Rightarrow>
                  drawLine_for plot from to isSwap sx sy dx dy (i + 1)
                    (if isSwap then x' else x' + sx) (if isSwap then y' + sy else y')
                    (e' + 2 * dy) s'))
      else Inr s)"
  by pat_completeness auto
termination
  by (relation "measure (\<lambda>(plot, from, to, isSwap, sx, sy, dx, dy, i, x, y, e, s). nat (dx + 1 - i))")
    auto

declare drawLine_for.simps [simp del]

definition drawLine_gen ::
  "('s \<Rightarrow> int \<Rightarrow> int \<Rightarrow> float \<Rightarrow> error + 's) \<Rightarrow> 's \<Rightarrow> Vector3 \<Rightarrow> Vector3 \<Rightarrow> error + 's" where
  "drawLine_gen plot s from to =
     bindE (to_int (x3 from)) (\<lambda>x.
     bindE (to_int (y3 from)) (\<lambda>y.
     bindE (to_int (fabs (fsub (x3 to) (of_int_f x)))) (\<lambda>dx.
     bindE (to_int (fabs (fsub (y3 to) (of_int_f y)))) (\<lambda>dy.
     bindE (to_int (fsub (x3 to) (of_int_f x))) (\<lambda>ax.
     bindE (to_int (fsub (y3 to) (of_int_f y))) (\<lambda>ay.
       let sx = sign ax;
           sy = sign ay;
           isSwap = dy > dx;
           dx' = (if isSwap then dy else dx);
           dy' = (if isSwap then dx else dy);
           e = 2 * dy' - dx'
       in drawLine_for plot from to isSwap sx sy dx' dy' 1 x y e s))))))"

definition drawLine :: "Renderer \<Rightarrow> Vector3 \<Rightarrow> Vector3 \<Rightarrow> error + Renderer" where
  "drawLine r from to = drawLine_gen (\<lambda>r' x y z. drawPoint r' x y z (wfBrush r')) r from to"

text \<open>The pixels \<open>drawLine\<close> submits to \<open>drawPoint\<close>, in order, with their depths.\<close>

definition submit :: "(int \<times> int \<times> float) list \<Rightarrow> int \<Rightarrow> int \<Rightarrow> float \<Rightarrow> error + (int \<times> int \<times> float) list" where
  "submit l x y z = Inr (l @ [(x, y, z)])"

definition drawLine_submits :: "Vector3 \<Rightarrow> Vector3 \<Rightarrow> error + (int \<times> int \<times> float) list" where
  "drawLine_submits from to = drawLine_gen submit [] from to"

subsection \<open>fillPolygon\<close>

text \<open>
  The inner loop \<open>for (int j = A.x; j <= B.x; j++)\<close>.  When the bound is \<open>INT_MAX\<close> or
  more (or \<open>+\<infinity>\<close>), the counter reaches \<open>INT_MAX\<close>, still passes the test, and its
  increment overflows.
\<close>

function fillPolygon_cols ::
  "('s \<Rightarrow> int \<Rightarrow> int \<Rightarrow> float \<Rightarrow> error + 's) \<Rightarrow> Vector3 \<Rightarrow> Vector3 \<Rightarrow> Vector3 \<Rightarrow> Vector3 \<Rightarrow>
   Vector3 \<Rightarrow> int \<Rightarrow> float \<Rightarrow> int \<Rightarrow> 's \<Rightarrow> error + 's" where
  "fillPolygon_cols plot first0 second0 third0 first zs i Bx j s =
     (if fle (of_int_f j) Bx then
        (let coordinates = barycentric
               (Vector3 (of_int_f j) (fadd (y3 first) (of_int_f i)) (Fin 0))
               first0 second0 third0;
             z = dot coordinates zs
         in bindE (to_int (fadd (y3 first) (of_int_f i))) (\<lambda>y.
            bindE (plot s j y z) (\<lambda>s'.
              if INT_MAX \<le> j then Inl Unbounded
              else fillPolygon_cols plot first0 second0 third0 first zs i Bx (j + 1) s')))
      else Inr s)"
  by pat_completeness auto
termination
  by (relation "measure (\<lambda>(plot, first0, second0, third0, first, zs, i, Bx, j, s).
                   nat (INT_MAX - j))") auto

declare fillPolygon_cols.simps [simp del]

text \<open>The body of the scanline loop, for scanline \<open>i\<close>.\<close>

definition fillPolygon_row ::
  "('s \<Rightarrow> int \<Rightarrow> int \<Rightarrow> float \<Rightarrow> error + 's) \<Rightarrow> Vector3 \<Rightarrow> Vector3 \<Rightarrow> Vector3 \<Rightarrow> Vector3 \<Rightarrow>
   Vector3 \<Rightarrow> Vector3 \<Rightarrow> Vector3 \<Rightarrow> int \<Rightarrow> int \<Rightarrow> 's \<Rightarrow> error + 's" where
  "fillPolygon_row plot first0 second0 third0 first second third zs totalHeight i s =
     (let secondHalf = (fgt (of_int_f i) (fsub (y3 second) (y3 first)) \<or>
                        feq (y3 second) (y3 first))
      in bindE (to_int (if secondHalf then fsub (y3 third) (y3 second)
                        else fsub (y3 second) (y3 first))) (\<lambda>segmentHeight.
         let alpha = fdiv (of_int_f i) (of_int_f totalHeight);
             beta = fdiv (fsub (of_int_f i)
                               (if secondHalf then fsub (y3 second) (y3 first) else Fin 0))
                         (of_int_f segmentHeight);
             A = add3 first (scale3 (sub3 third first) alpha);
             B = (if secondHalf then add3 second (scale3 (sub3 third second) beta)
                  else add3 first (scale3 (sub3 second first) beta));
             A' = (if fgt (x3 A) (x3 B) then B else A);
             B' = (if fgt (x3 A) (x3 B) then A else B)
         in bindE (to_int (x3 A')) (\<lambda>j.
              fillPolygon_cols plot first0 second0 third0 first zs i (x3 B') j s)))"

text \<open>The scanline loop \<open>for (int i = 0; i < totalHeight; i++)\<close>, over a loop body.\<close>

function fillPolygon_rows ::
  "(int \<Rightarrow> 's \<Rightarrow> error + 's) \<Rightarrow> int \<Rightarrow> int \<Rightarrow> 's \<Rightarrow> error + 's" where
  "fillPolygon_rows body totalHeight i s =
     (if i < totalHeight then
        bindE (body i s) (\<lambda>s'. fillPolygon_rows body totalHeight (i + 1) s')
      else Inr s)"
  by pat_completeness auto
termination
  by (relation "measure (\<lambda>(body, totalHeight, i, s). nat (totalHeight - i))") auto

declare fillPolygon_rows.simps [simp del]

text \<open>
  The three conditional swaps that sort the copies \<open>first\<close>, \<open>second\<close>, \<open>third\<close> by \<open>y\<close>.
  The arguments \<open>_first\<close>, \<open>_second\<close>, \<open>_third\<close> of the source are \<open>first0\<close>, \<open>second0\<close>,
  \<open>third0\<close> here.
\<close>

definition sortY :: "Vector3 \<Rightarrow> Vector3 \<Rightarrow> Vector3 \<Rightarrow> Vector3 \<times> Vector3 \<times> Vector3" where
  "sortY first0 second0 third0 =
     (let first1 = (if fgt (y3 first0) (y3 second0) then second0 else first0);
          second1 = (if fgt (y3 first0) (y3 second0) then first0 else second0);
          first = (if fgt (y3 first1) (y3 third0) then third0 else first1);
          third1 = (if fgt (y3 first1) (y3 third0) then first1 else third0);
          second = (if fgt (y3 second1) (y3 third1) then third1 else second1);
          third = (if fgt (y3 second1) (y3 third1) then second1 else third1)
      in (first, second, third))"

text \<open>
  \<open>fillPolygon\<close> up to the scanline loop: the rejection of flat triangles, the sorting,
  the vector \<open>zs\<close> of the sorted vertices' depths, and \<open>totalHeight\<close>.  The loop body is the
  parameter \<open>row\<close>; the parameter \<open>normal\<close> of the source is never read and is left out.
\<close>

definition fillPolygon_gen ::
  "(Vector3 \<Rightarrow> Vector3 \<Rightarrow> Vector3 \<Rightarrow> Vector3 \<Rightarrow> int \<Rightarrow> int \<Rightarrow> 's \<Rightarrow> error + 's) \<Rightarrow> 's \<Rightarrow>
   Vector3 \<Rightarrow> Vector3 \<Rightarrow> Vector3 \<Rightarrow> error + 's" where
  "fillPolygon_gen row s first0 second0 third0 =
     (if feq (y3 first0) (y3 second0) \<and> feq (y3 first0) (y3 third0) then Inr s
      else
        (case sortY first0 second0 third0 of (first, second, third) \<Rightarrow>
           let zs = Vector3 (z3 first) (z3 second) (z3 third)
           in bindE (to_int (fsub (y3 third) (y3 first))) (\<lambda>totalHeight.
                fillPolygon_rows (row first second third zs totalHeight) totalHeight 0 s)))"

definition fillPolygon ::
  "Renderer \<Rightarrow> Vector3 \<Rightarrow> Vector3 \<Rightarrow> Vector3 \<Rightarrow> Color \<Rightarrow> error + Renderer" where
  "fillPolygon r first0 second0 third0 br =
     fillPolygon_gen
       (fillPolygon_row (\<lambda>r' x y z. drawPoint r' x y z br) first0 second0 third0)
       r first0 second0 third0"

text \<open>The pixels \<open>fillPolygon\<close> submits to \<open>drawPoint\<close>, in order, with their depths.\<close>

definition fillPolygon_submits ::
  "Vector3 \<Rightarrow> Vector3 \<Rightarrow> Vector3 \<Rightarrow> error + (int \<times> int \<times> float) list" where
  "fillPolygon_submits first0 second0 third0 =
     fillPolygon_gen (fillPolygon_row submit first0 second0 third0) [] first0 second0 third0"

text \<open>
  The same run, which also records each scanline \<open>i\<close> whose body has run.  The body is the
  body of \<open>fillPolygon\<close>: where a conversion in it fails, so does this run.
\<close>

definition fillPolygon_trace ::
  "Vector3 \<Rightarrow> Vector3 \<Rightarrow> Vector3 \<Rightarrow> error + (int list \<times> (int \<times> int \<times> float) list)" where
  "fillPolygon_trace first0 second0 third0 =
     fillPolygon_gen
       (\<lambda>first second third zs totalHeight i (ls, l).
          bindE (fillPolygon_row submit first0 second0 third0 first second third zs totalHeight i l)
            (\<lambda>l'. Inr (ls @ [i], l')))
       ([], []) first0 second0 third0"

section \<open>Notions used in the statements and proofs\<close>

text \<open>
  The viewport lies within the extents of the depth-buffer array, as it does after the
  constructor: then no index that passes the bounds check of \<open>drawPoint\<close> is out of range.
\<close>

definition fits :: "Renderer \<Rightarrow> bool" where
  "fits r = (viewportX r \<le> zlen0 r \<and> viewportY r \<le> zlen1 r)"

text \<open>A 10 x 10 renderer whose depth buffer has just been cleared to \<open>-\<infinity>\<close>.\<close>

definition cleared :: Renderer where
  "cleared = \<lparr>viewportX = 10, viewportY = 10, zlen0 = 10, zlen1 = 10,
              zbuffer = (\<lambda>c. NInf), wfBrush = Black, graphics = []\<rparr>"

text \<open>
  What the surface shows.  A \<open>FillRectangle(brush, x, y, w, h)\<close> paints the pixels with
  \<open>x \<le> px < x + w\<close> and \<open>y \<le> py < y + h\<close>, over whatever was painted before;
  \<open>None\<close> is the background.  \<open>last_fill\<close> is the colour of the last rectangle
  whose corner \<open>(x, y)\<close> is the given pixel.
\<close>

fun pixel_color :: "gop list \<Rightarrow> int \<times> int \<Rightarrow> Color option" where
  "pixel_color [] p = None"
| "pixel_color (FillRectangle c x y w h # gs) p =
     (case pixel_color gs p of
        Some c' \<Rightarrow> Some c'
      | None \<Rightarrow>
          (if x \<le> fst p \<and> fst p < x + w \<and> y \<le> snd p \<and> snd p < y + h then Some c
           else None))"

fun last_fill :: "gop list \<Rightarrow> int \<times> int \<Rightarrow> Color option" where
  "last_fill [] p = None"
| "last_fill (FillRectangle c x y w h # gs) p =
     (case last_fill gs p of
        Some c' \<Rightarrow> Some c'
      | None \<Rightarrow> (if (x, y) = p then Some c else None))"

text \<open>
  The reference the triangle filler is compared with: barycentric weights of the pixel in
  the x,y plane, every vector taken with \<open>z = 0\<close>.
\<close>

definition flat :: "Vector3 \<Rightarrow> Vector3" where
  "flat v = Vector3 (x3 v) (y3 v) (Fin 0)"

definition barycentric2D :: "Vector3 \<Rightarrow> Vector3 \<Rightarrow> Vector3 \<Rightarrow> Vector3 \<Rightarrow> Vector3" where
  "barycentric2D p a b c = barycentric (flat p) (flat a) (flat b) (flat c)"

text \<open>Submitting a list of pixels to \<open>drawPoint\<close>, in order, with one brush.\<close>

fun drawPoints :: "Color \<Rightarrow> (int \<times> int \<times> float) list \<Rightarrow> Renderer \<Rightarrow> error + Renderer" where
  "drawPoints br [] r = Inr r"
| "drawPoints br (q # qs) r =
     bindE (drawPoint r (fst q) (fst (snd q)) (snd (snd q)) br) (drawPoints br qs)"

text \<open>
  The depth \<open>fillPolygon\<close> gives a pixel.  \<open>interpolated first0 second0 third0 (x, y, z)\<close>
  says that, for some scanline \<open>i \<ge> 0\<close> whose row \<open>first.y + i\<close> converts to \<open>y\<close>, the depth
  \<open>z\<close> is the dot product of the weights \<open>barycentric((x, first.y + i, 0), first0, second0,
  third0)\<close> with the depths of the sorted vertices: the vertices go to \<open>barycentric\<close> as
  they were passed, with their depths, and the query point with \<open>z = 0\<close>.
\<close>

definition interpolated_at ::
  "Vector3 \<Rightarrow> Vector3 \<Rightarrow> Vector3 \<Rightarrow> Vector3 \<Rightarrow> Vector3 \<Rightarrow> int \<times> int \<times> float \<Rightarrow> bool" where
  "interpolated_at first zs first0 second0 third0 q =
     (\<exists>i. 0 \<le> i \<and> to_int (fadd (y3 first) (of_int_f i)) = Inr (fst (snd q)) \<and>
        snd (snd q) =
          dot (barycentric (Vector3 (of_int_f (fst q)) (fadd (y3 first) (of_int_f i)) (Fin 0))
                 first0 second0 third0) zs)"

definition interpolated :: "Vector3 \<Rightarrow> Vector3 \<Rightarrow> Vector3 \<Rightarrow> int \<times> int \<times> float \<Rightarrow> bool" where
  "interpolated first0 second0 third0 q =
     (case sortY first0 second0 third0 of (first, second, third) \<Rightarrow>
        interpolated_at first (Vector3 (z3 first) (z3 second) (z3 third)) first0 second0 third0 q)"

text \<open>
  Two runs of the same loops are compared through a relation between their states: equal
  errors, or related results.
\<close>

definition rel_res :: "('a \<Rightarrow> 'b \<Rightarrow> bool) \<Rightarrow> error + 'a \<Rightarrow> error + 'b \<Rightarrow> bool" where
  "rel_res R a b =
     (case a of Inl e \<Rightarrow> b = Inl e
      | Inr s \<Rightarrow> (case b of Inl e \<Rightarrow> False | Inr t \<Rightarrow> R s t))"

text \<open>
  \<open>paint\<close> is \<open>drawPoint\<close> where it cannot fail; \<open>inb\<close> is its bounds check.  Seen from
  one pixel \<open>p\<close>, a renderer is the cell of \<open>p\<close> and the colour last painted at \<open>p\<close>
  (\<open>view\<close>); the candidates a list of submitted pixels holds for \<open>p\<close> are \<open>cands\<close>; a
  candidate replaces the cell when it is greater (\<open>higher\<close>), and then its brush replaces the
  colour (\<open>own\<close>).
\<close>

definition paint :: "Color \<Rightarrow> int \<times> int \<times> float \<Rightarrow> Renderer \<Rightarrow> Renderer" where
  "paint br q r =
     (case q of (x, y, z) \<Rightarrow>
        if 0 < x \<and> x < viewportX r \<and> 0 < y \<and> y < viewportY r \<and>
           fgt (fdiv (Fin 1) z) (zbuffer r (x, y))
        then r\<lparr>zbuffer := (zbuffer r)((x, y) := fdiv (Fin 1) z),
               graphics := graphics r @ [FillRectangle br x y 2 2]\<rparr>
        else r)"

definition inb :: "Renderer \<Rightarrow> int \<times> int \<Rightarrow> bool" where
  "inb r p = (0 < fst p \<and> fst p < viewportX r \<and> 0 < snd p \<and> snd p < viewportY r)"

definition view :: "Renderer \<Rightarrow> int \<times> int \<Rightarrow> float \<times> Color option" where
  "view r p = (zbuffer r p, last_fill (graphics r) p)"

definition cands :: "int \<times> int \<Rightarrow> (int \<times> int \<times> float) list \<Rightarrow> float list" where
  "cands p L = map (\<lambda>q. fdiv (Fin 1) (snd (snd q))) (filter (\<lambda>q. (fst q, fst (snd q)) = p) L)"

definition higher :: "float \<Rightarrow> float \<Rightarrow> float" where
  "higher c v = (if fgt c v then c else v)"

definition own :: "Color \<Rightarrow> float \<Rightarrow> float \<times> Color option \<Rightarrow> float \<times> Color option" where
  "own br c vo = (if fgt c (fst vo) then (c, Some br) else vo)"

section \<open>Properties of the transform builders\<close>

subsection \<open>Perspective projection\<close>

text \<open>
  C1.  The claim asks that \<open>perspective(fov=90, aspect=1, near=1, far=100)\<close>, applied to
  the point \<open>(0,0,-1,1)\<close> on the near plane, gives a depth in \<open>[0,1]\<close> after the
  homogeneous divide.  Evaluated on the code, the clip-space \<open>w\<close> is \<open>1 = -z_eye\<close>, as
  claimed, but the depth after the divide is \<open>-1\<close>: entries (2,2) and (2,3) are the
  remap to \<open>[-1,1]\<close>, although the source comments them as a remap to \<open>[0,1]\<close>.
\<close>

theorem perspective_near_plane_depth:
  "w4 (mulv4 (perspective (Fin 90) (Fin 1) (Fin 1) (Fin 100))
         (Vector4 (Fin 0) (Fin 0) (Fin (- 1)) (Fin 1))) = Fin 1 \<and>
   z3 (fromHomogeneous (mulv4 (perspective (Fin 90) (Fin 1) (Fin 1) (Fin 100))
         (Vector4 (Fin 0) (Fin 0) (Fin (- 1)) (Fin 1)))) = Fin (- 1) \<and>
   \<not> fle (Fin 0) (Fin (- 1))"
  by (simp add: perspective_def fromHomogeneous_def mulv4_def row4_def get4_def set4_def
      identity4_def Let_def fsub_def)

subsection \<open>Axis rotations\<close>

text \<open>
  C5 as stated places, for \<open>rotateZ\<close>, \<open>-sin\<close> at entry (1,0) and \<open>sin\<close> at entry (0,1).
  The code does the opposite, so the claimed block is not the one \<open>rotateZ\<close> multiplies
  by: at 90 degrees the two products differ.
\<close>

theorem rotateZ_claimed_block_counterexample:
  "rotateZ identity4 (Fin 90) \<noteq> mul4 (Matrix4
     [fcos (degToRad (Fin 90)), fsin (degToRad (Fin 90)), Fin 0, Fin 0,
      fneg (fsin (degToRad (Fin 90))), fcos (degToRad (Fin 90)), Fin 0, Fin 0,
      Fin 0, Fin 0, Fin 1, Fin 0,
      Fin 0, Fin 0, Fin 0, Fin 1]) identity4"
  by (simp add: rotateZ_def set4_def identity4_def Let_def mul4_def cell4_def get4_def
      degToRad_def)

text \<open>
  C5, amended.  For every matrix \<open>M\<close> and angle \<open>d\<close>, each of \<open>rotateX\<close>, \<open>rotateY\<close>,
  \<open>rotateZ\<close> returns \<open>T * M\<close>, where \<open>T\<close> is the identity with the cosine/sine block:
  for X, (1,1)=cos, (2,1)=-sin, (1,2)=sin, (2,2)=cos; for Y, (0,0)=cos, (2,0)=-sin,
  (0,2)=sin, (2,2)=cos; for Z, (0,0)=cos, (0,1)=-sin, (1,0)=sin, (1,1)=cos.  The angle is
  \<open>degrees * pi / 180\<close>.
\<close>

theorem rotate_builders:
  "rotateX M d = mul4 (Matrix4
     [Fin 1, Fin 0, Fin 0, Fin 0,
      Fin 0, fcos (degToRad d), fsin (degToRad d), Fin 0,
      Fin 0, fneg (fsin (degToRad d)), fcos (degToRad d), Fin 0,
      Fin 0, Fin 0, Fin 0, Fin 1]) M \<and>
   rotateY M d = mul4 (Matrix4
     [fcos (degToRad d), Fin 0, fsin (degToRad d), Fin 0,
      Fin 0, Fin 1, Fin 0, Fin 0,
      fneg (fsin (degToRad d)), Fin 0, fcos (degToRad d), Fin 0,
      Fin 0, Fin 0, Fin 0, Fin 1]) M \<and>
   rotateZ M d = mul4 (Matrix4
     [fcos (degToRad d), fneg (fsin (degToRad d)), Fin 0, Fin 0,
      fsin (degToRad d), fcos (degToRad d), Fin 0, Fin 0,
      Fin 0, Fin 0, Fin 1, Fin 0,
      Fin 0, Fin 0, Fin 0, Fin 1]) M \<and>
   degToRad (Fin r) = Fin (r * pi / 180)"
  by (simp add: rotateX_def rotateY_def rotateZ_def set4_def identity4_def Let_def
      degToRad_def)

theorem rotate_builders_witness:
  "get4 (rotateZ identity4 (Fin 90)) 0 1 = Fin (- 1) \<and>
   get4 (rotateZ identity4 (Fin 90)) 1 0 = Fin 1 \<and>
   get4 (rotateX identity4 (Fin 90)) 1 2 = Fin 1 \<and>
   get4 (rotateY identity4 (Fin 90)) 0 2 = Fin 1"
  using rotate_builders [of identity4 "Fin 90" 90]
  by (simp add: mul4_def cell4_def get4_def identity4_def)

subsection \<open>Barycentric coordinates\<close>

lemma solve2:
  fixes d00 d01 d11 s t :: real
  assumes D: "d00 * d11 - d01 * d01 \<noteq> 0"
  shows "(d11 * (s * d00 + t * d01) - d01 * (s * d01 + t * d11)) / (d00 * d11 - d01 * d01) = s"
    and "(d00 * (s * d01 + t * d11) - d01 * (s * d00 + t * d01)) / (d00 * d11 - d01 * d01) = t"
proof -
  have "d11 * (s * d00 + t * d01) - d01 * (s * d01 + t * d11) = s * (d00 * d11 - d01 * d01)"
    by (simp add: algebra_simps)
  then show "(d11 * (s * d00 + t * d01) - d01 * (s * d01 + t * d11)) / (d00 * d11 - d01 * d01) = s"
    using D by simp
  have "d00 * (s * d01 + t * d11) - d01 * (s * d00 + t * d01) = t * (d00 * d11 - d01 * d01)"
    by (simp add: algebra_simps)
  then show "(d00 * (s * d01 + t * d11) - d01 * (s * d00 + t * d01)) / (d00 * d11 - d01 * d01) = t"
    using D by simp
qed

text \<open>On finite vectors with a non-zero denominator the solver computes in the reals.\<close>

lemma barycentric_fin:
  fixes a1 a2 a3 b1 b2 b3 c1 c2 c3 p1 p2 p3 :: real
  defines "d00 \<equiv> (b1 - a1) * (b1 - a1) + (b2 - a2) * (b2 - a2) + (b3 - a3) * (b3 - a3)"
      and "d01 \<equiv> (b1 - a1) * (c1 - a1) + (b2 - a2) * (c2 - a2) + (b3 - a3) * (c3 - a3)"
      and "d11 \<equiv> (c1 - a1) * (c1 - a1) + (c2 - a2) * (c2 - a2) + (c3 - a3) * (c3 - a3)"
      and "d20 \<equiv> (p1 - a1) * (b1 - a1) + (p2 - a2) * (b2 - a2) + (p3 - a3) * (b3 - a3)"
      and "d21 \<equiv> (p1 - a1) * (c1 - a1) + (p2 - a2) * (c2 - a2) + (p3 - a3) * (c3 - a3)"
  assumes D: "d00 * d11 - d01 * d01 \<noteq> 0"
  shows "barycentric (Vector3 (Fin p1) (Fin p2) (Fin p3)) (Vector3 (Fin a1) (Fin a2) (Fin a3))
           (Vector3 (Fin b1) (Fin b2) (Fin b3)) (Vector3 (Fin c1) (Fin c2) (Fin c3))
       = Vector3 (Fin (1 - (d11 * d20 - d01 * d21) / (d00 * d11 - d01 * d01)
                        - (d00 * d21 - d01 * d20) / (d00 * d11 - d01 * d01)))
                 (Fin ((d11 * d20 - d01 * d21) / (d00 * d11 - d01 * d01)))
                 (Fin ((d00 * d21 - d01 * d20) / (d00 * d11 - d01 * d01)))"
  using D unfolding d00_def d01_def d11_def d20_def d21_def
  by (simp add: barycentric_def Let_def sub3_def dot_def fsub_def)

lemma barycentric_in_plane:
  fixes a1 a2 a3 b1 b2 b3 c1 c2 c3 s t :: real
  defines "d00 \<equiv> (b1 - a1) * (b1 - a1) + (b2 - a2) * (b2 - a2) + (b3 - a3) * (b3 - a3)"
      and "d01 \<equiv> (b1 - a1) * (c1 - a1) + (b2 - a2) * (c2 - a2) + (b3 - a3) * (c3 - a3)"
      and "d11 \<equiv> (c1 - a1) * (c1 - a1) + (c2 - a2) * (c2 - a2) + (c3 - a3) * (c3 - a3)"
  assumes D: "d00 * d11 - d01 * d01 \<noteq> 0"
  shows "barycentric
           (Vector3 (Fin (a1 + (b1 - a1) * s + (c1 - a1) * t))
                    (Fin (a2 + (b2 - a2) * s + (c2 - a2) * t))
                    (Fin (a3 + (b3 - a3) * s + (c3 - a3) * t)))
           (Vector3 (Fin a1) (Fin a2) (Fin a3))
           (Vector3 (Fin b1) (Fin b2) (Fin b3)) (Vector3 (Fin c1) (Fin c2) (Fin c3))
       = Vector3 (Fin (1 - s - t)) (Fin s) (Fin t)"
proof -
  let ?p1 = "a1 + (b1 - a1) * s + (c1 - a1) * t"
  let ?p2 = "a2 + (b2 - a2) * s + (c2 - a2) * t"
  let ?p3 = "a3 + (b3 - a3) * s + (c3 - a3) * t"
  have d20: "(?p1 - a1) * (b1 - a1) + (?p2 - a2) * (b2 - a2) + (?p3 - a3) * (b3 - a3)
             = s * d00 + t * d01"
    unfolding d00_def d01_def by (simp add: algebra_simps)
  have d21: "(?p1 - a1) * (c1 - a1) + (?p2 - a2) * (c2 - a2) + (?p3 - a3) * (c3 - a3)
             = s * d01 + t * d11"
    unfolding d01_def d11_def by (simp add: algebra_simps)
  note fin = barycentric_fin [of b1 a1 b2 a2 b3 a3 c1 c2 c3 ?p1 ?p2 ?p3,
      folded d00_def d01_def d11_def, OF D]
  show ?thesis
    unfolding fin d20 d21 solve2 [OF D] ..
qed

text \<open>
  C6.  For finite vertices \<open>a\<close>, \<open>b\<close>, \<open>c\<close> with non-zero denominator
  \<open>d00*d11 - d01*d01\<close> and every finite point \<open>p\<close>, the weights \<open>(u,v,w)\<close> returned by
  \<open>barycentric(p,a,b,c)\<close> sum to 1; if \<open>p\<close> lies in the plane of the triangle, that is
  \<open>p = a + s(b-a) + t(c-a)\<close>, then \<open>u*a + v*b + w*c = p\<close>; and for \<open>p\<close> the centroid
  the weights are \<open>(1/3, 1/3, 1/3)\<close>.
\<close>

theorem barycentric_weights:
  fixes a1 a2 a3 b1 b2 b3 c1 c2 c3 p1 p2 p3 s t :: real
  defines "a \<equiv> Vector3 (Fin a1) (Fin a2) (Fin a3)"
      and "b \<equiv> Vector3 (Fin b1) (Fin b2) (Fin b3)"
      and "c \<equiv> Vector3 (Fin c1) (Fin c2) (Fin c3)"
      and "p \<equiv> Vector3 (Fin p1) (Fin p2) (Fin p3)"
  defines "r \<equiv> barycentric p a b c"
  assumes denom: "fsub (fmul (dot (sub3 b a) (sub3 b a)) (dot (sub3 c a) (sub3 c a)))
                       (fmul (dot (sub3 b a) (sub3 c a)) (dot (sub3 b a) (sub3 c a))) \<noteq> Fin 0"
  shows "fadd (fadd (x3 r) (y3 r)) (z3 r) = Fin 1 \<and>
         (p = add3 (add3 a (scale3 (sub3 b a) (Fin s))) (scale3 (sub3 c a) (Fin t)) \<longrightarrow>
            add3 (add3 (scale3 a (x3 r)) (scale3 b (y3 r))) (scale3 c (z3 r)) = p) \<and>
         (p = scale3 (add3 (add3 a b) c) (Fin (1 / 3)) \<longrightarrow>
            r = Vector3 (Fin (1 / 3)) (Fin (1 / 3)) (Fin (1 / 3)))"
proof -
  let ?d00 = "(b1 - a1) * (b1 - a1) + (b2 - a2) * (b2 - a2) + (b3 - a3) * (b3 - a3)"
  let ?d01 = "(b1 - a1) * (c1 - a1) + (b2 - a2) * (c2 - a2) + (b3 - a3) * (c3 - a3)"
  let ?d11 = "(c1 - a1) * (c1 - a1) + (c2 - a2) * (c2 - a2) + (c3 - a3) * (c3 - a3)"
  have D: "?d00 * ?d11 - ?d01 * ?d01 \<noteq> 0"
    using denom unfolding a_def b_def c_def
    by (simp add: sub3_def dot_def fsub_def)
  have sum1: "fadd (fadd (x3 r) (y3 r)) (z3 r) = Fin 1"
    unfolding r_def p_def a_def b_def c_def barycentric_fin [OF D] by simp
  have plane: "add3 (add3 (scale3 a (x3 r)) (scale3 b (y3 r))) (scale3 c (z3 r)) = p"
    if "p = add3 (add3 a (scale3 (sub3 b a) (Fin s'))) (scale3 (sub3 c a) (Fin t'))" for s' t'
  proof -
    from that have p: "p = Vector3 (Fin (a1 + (b1 - a1) * s' + (c1 - a1) * t'))
                    (Fin (a2 + (b2 - a2) * s' + (c2 - a2) * t'))
                    (Fin (a3 + (b3 - a3) * s' + (c3 - a3) * t'))"
      unfolding a_def b_def c_def by (simp add: add3_def scale3_def sub3_def fsub_def)
    have "r = Vector3 (Fin (1 - s' - t')) (Fin s') (Fin t')"
      unfolding r_def p unfolding a_def b_def c_def by (rule barycentric_in_plane [OF D])
    then show ?thesis unfolding p unfolding a_def b_def c_def
      by (simp add: add3_def scale3_def algebra_simps)
  qed
  have centroid: "r = Vector3 (Fin (1 / 3)) (Fin (1 / 3)) (Fin (1 / 3))"
    if "p = scale3 (add3 (add3 a b) c) (Fin (1 / 3))"
  proof -
    from that have p: "p = Vector3 (Fin (a1 + (b1 - a1) * (1 / 3) + (c1 - a1) * (1 / 3)))
                    (Fin (a2 + (b2 - a2) * (1 / 3) + (c2 - a2) * (1 / 3)))
                    (Fin (a3 + (b3 - a3) * (1 / 3) + (c3 - a3) * (1 / 3)))"
      unfolding a_def b_def c_def by (simp add: add3_def scale3_def field_simps)
    have "r = Vector3 (Fin (1 - 1 / 3 - 1 / 3)) (Fin (1 / 3)) (Fin (1 / 3))"
      unfolding r_def p unfolding a_def b_def c_def by (rule barycentric_in_plane [OF D])
    then show ?thesis by simp
  qed
  from sum1 plane centroid show ?thesis by blast
qed

theorem barycentric_weights_witness:
  "fsub (fmul (dot (Vector3 (Fin 3) (Fin 0) (Fin 0)) (Vector3 (Fin 3) (Fin 0) (Fin 0)))
              (dot (Vector3 (Fin 0) (Fin 3) (Fin 0)) (Vector3 (Fin 0) (Fin 3) (Fin 0))))
        (fmul (dot (Vector3 (Fin 3) (Fin 0) (Fin 0)) (Vector3 (Fin 0) (Fin 3) (Fin 0)))
              (dot (Vector3 (Fin 3) (Fin 0) (Fin 0)) (Vector3 (Fin 0) (Fin 3) (Fin 0)))) = Fin 81 \<and>
   barycentric (Vector3 (Fin 1) (Fin 1) (Fin 0)) (Vector3 (Fin 0) (Fin 0) (Fin 0))
      (Vector3 (Fin 3) (Fin 0) (Fin 0)) (Vector3 (Fin 0) (Fin 3) (Fin 0))
    = Vector3 (Fin (1 / 3)) (Fin (1 / 3)) (Fin (1 / 3))"
  using barycentric_weights [of 3 0 0 0 0 0 0 3 0 1 1 0 "1 / 3" "1 / 3"]
  by (simp add: sub3_def dot_def fsub_def add3_def scale3_def)

subsection \<open>The view matrix\<close>

lemma get4_mul4: "i < 4 \<Longrightarrow> j < 4 \<Longrightarrow> get4 (mul4 a b) i j = cell4 a b i j"
proof -
  assume "i < 4" "j < 4"
  then have "i \<in> {0, 1, 2, 3}" "j \<in> {0, 1, 2, 3}" by auto
  then show ?thesis by (auto simp: get4_def mul4_def)
qed

lemma sqrt_unit:
  fixes d1 d2 d3 :: real
  assumes "d1 \<noteq> 0 \<or> d2 \<noteq> 0 \<or> d3 \<noteq> 0"
  shows "d1 / sqrt (d1 * d1 + d2 * d2 + d3 * d3) * d1 + d2 / sqrt (d1 * d1 + d2 * d2 + d3 * d3) * d2
       + d3 / sqrt (d1 * d1 + d2 * d2 + d3 * d3) * d3 = sqrt (d1 * d1 + d2 * d2 + d3 * d3)"
proof -
  let ?q = "d1 * d1 + d2 * d2 + d3 * d3"
  have pos: "0 < ?q" using assms
    by (metis add_pos_nonneg add_nonneg_pos zero_le_square not_real_square_gt_zero
        add_nonneg_nonneg)
  have "d1 / sqrt ?q * d1 + d2 / sqrt ?q * d2 + d3 / sqrt ?q * d3 = ?q / sqrt ?q"
    by (simp add: add_divide_distrib)
  also have "\<dots> = sqrt ?q" using pos by (simp add: real_div_sqrt)
  finally show ?thesis .
qed

lemma forward_alg:
  fixes n :: real
  shows "(e1 - t1) / n * t1 + (e2 - t2) / n * t2 + (e3 - t3) / n * t3
         + ((e1 - t1) / n * (- e1) + (e2 - t2) / n * (- e2) + (e3 - t3) / n * (- e3))
       = - ((e1 - t1) / n * (e1 - t1) + (e2 - t2) / n * (e2 - t2) + (e3 - t3) / n * (e3 - t3))"
  by (simp add: algebra_simps diff_divide_distrib)

text \<open>
  C7.  For every finite eye and target with \<open>eye \<noteq> target\<close>, and every \<open>up\<close>, applying
  \<open>lookAt(eye, target, up)\<close> to the homogeneous point \<open>(target, 1)\<close> gives a point whose
  z-component is \<open>-|eye - target|\<close>.  The z-row of the product only reads the forward
  axis, so the statement needs no condition on \<open>up\<close>: it holds in particular when
  \<open>up\<close> is not parallel to \<open>eye - target\<close>.
\<close>

theorem lookAt_target_depth:
  fixes e1 e2 e3 t1 t2 t3 :: real
  assumes ne: "Vector3 (Fin e1) (Fin e2) (Fin e3) \<noteq> Vector3 (Fin t1) (Fin t2) (Fin t3)"
  shows "z4 (mulv4 (lookAt (Vector3 (Fin e1) (Fin e2) (Fin e3))
                           (Vector3 (Fin t1) (Fin t2) (Fin t3)) up)
                   (Vector4 (Fin t1) (Fin t2) (Fin t3) (Fin 1)))
         = fneg (len (sub3 (Vector3 (Fin e1) (Fin e2) (Fin e3))
                           (Vector3 (Fin t1) (Fin t2) (Fin t3)))) \<and>
         len (sub3 (Vector3 (Fin e1) (Fin e2) (Fin e3)) (Vector3 (Fin t1) (Fin t2) (Fin t3)))
         = Fin (sqrt ((e1 - t1) * (e1 - t1) + (e2 - t2) * (e2 - t2) + (e3 - t3) * (e3 - t3)))"
proof -
  let ?d1 = "e1 - t1" and ?d2 = "e2 - t2" and ?d3 = "e3 - t3"
  let ?q = "?d1 * ?d1 + ?d2 * ?d2 + ?d3 * ?d3"
  have nz: "?d1 \<noteq> 0 \<or> ?d2 \<noteq> 0 \<or> ?d3 \<noteq> 0" using ne by auto
  then have pos: "0 < ?q"
    by (metis add_pos_nonneg add_nonneg_pos zero_le_square not_real_square_gt_zero
        add_nonneg_nonneg)
  then have s: "sqrt ?q \<noteq> 0" by simp
  have q0: "0 \<le> ?q" using pos by simp
  have ln: "len (sub3 (Vector3 (Fin e1) (Fin e2) (Fin e3)) (Vector3 (Fin t1) (Fin t2) (Fin t3)))
            = Fin (sqrt ?q)"
    using q0 by (simp add: sub3_def len_def dot_def fsub_def)
  have dir: "normalized (sub3 (Vector3 (Fin e1) (Fin e2) (Fin e3)) (Vector3 (Fin t1) (Fin t2) (Fin t3)))
     = Vector3 (Fin (?d1 / sqrt ?q)) (Fin (?d2 / sqrt ?q)) (Fin (?d3 / sqrt ?q))"
    using s q0 by (simp add: normalized_def sub3_def len_def dot_def fsub_def)
  have "z4 (mulv4 (lookAt (Vector3 (Fin e1) (Fin e2) (Fin e3)) (Vector3 (Fin t1) (Fin t2) (Fin t3)) up)
                   (Vector4 (Fin t1) (Fin t2) (Fin t3) (Fin 1)))
       = Fin (?d1 / sqrt ?q * t1 + ?d2 / sqrt ?q * t2 + ?d3 / sqrt ?q * t3
              + (?d1 / sqrt ?q * (- e1) + ?d2 / sqrt ?q * (- e2) + ?d3 / sqrt ?q * (- e3)))"
    unfolding lookAt_def Let_def dir
    apply (simp add: mulv4_def row4_def get4_mul4)
    apply (simp add: cell4_def get4_def)
    done
  also have "?d1 / sqrt ?q * t1 + ?d2 / sqrt ?q * t2 + ?d3 / sqrt ?q * t3
              + (?d1 / sqrt ?q * (- e1) + ?d2 / sqrt ?q * (- e2) + ?d3 / sqrt ?q * (- e3))
       = - (?d1 / sqrt ?q * ?d1 + ?d2 / sqrt ?q * ?d2 + ?d3 / sqrt ?q * ?d3)"
    by (rule forward_alg)
  also have "\<dots> = - sqrt ?q" using sqrt_unit [OF nz] by simp
  finally show ?thesis unfolding ln by simp
qed

theorem lookAt_target_depth_witness:
  "Vector3 (Fin 0) (Fin 0) (Fin 1) \<noteq> Vector3 (Fin 0) (Fin 0) (Fin 0) \<and>
   z4 (mulv4 (lookAt (Vector3 (Fin 0) (Fin 0) (Fin 1)) (Vector3 (Fin 0) (Fin 0) (Fin 0))
                     (Vector3 (Fin 0) (Fin 1) (Fin 0)))
             (Vector4 (Fin 0) (Fin 0) (Fin 0) (Fin 1))) = Fin (- 1)"
  using lookAt_target_depth [of 0 0 1 0 0 0 "Vector3 (Fin 0) (Fin 1) (Fin 0)"]
  by simp

section \<open>Properties of the renderer\<close>

lemmas line_defs = drawLine_submits_def drawLine_gen_def bindE_def of_int_f_def fsub_def sign_def
  Let_def submit_def len_def sub3_def dot_def drawLine_while.simps drawLine_for.simps
  INT_MIN_def INT_MAX_def

lemmas fill_defs = fillPolygon_gen_def fillPolygon_row_def sortY_def
  bindE_def of_int_f_def fsub_def Let_def submit_def sub3_def dot_def add3_def scale3_def
  feq_def fgt_def barycentric_def fillPolygon_rows.simps fillPolygon_cols.simps
  INT_MIN_def INT_MAX_def

subsection \<open>The depth test\<close>

lemma flt_NaN [simp]: "flt a NaN = False" "flt NaN a = False"
  by (cases a; simp)+

text \<open>
  C2.  On a renderer whose viewport lies within the depth-buffer array, for all integer
  coordinates \<open>x\<close>, \<open>y\<close> and every depth \<open>z\<close>, \<open>drawPoint\<close> computes the candidate
  \<open>1/z\<close>; if \<open>0 < x < width\<close>, \<open>0 < y < height\<close> and the candidate is greater than the
  stored cell, it stores the candidate in the cell and draws the pixel; otherwise it draws
  nothing and leaves the renderer unchanged.  A pixel with \<open>x = 0\<close> or \<open>y = 0\<close> is always
  rejected.
\<close>

theorem drawPoint_test_and_set:
  assumes "fits r"
  shows "drawPoint r x y z br =
           (if 0 < x \<and> x < viewportX r \<and> 0 < y \<and> y < viewportY r \<and>
               fgt (fdiv (Fin 1) z) (zbuffer r (x, y))
            then Inr (r\<lparr>zbuffer := (zbuffer r)((x, y) := fdiv (Fin 1) z),
                        graphics := graphics r @ [FillRectangle br x y 2 2]\<rparr>)
            else Inr r) \<and>
         (x = 0 \<or> y = 0 \<longrightarrow> drawPoint r x y z br = Inr r)"
  using assms by (auto simp: drawPoint_def fits_def)

theorem drawPoint_test_and_set_witness:
  "fits cleared \<and>
   drawPoint cleared 3 4 (Fin 2) Blue =
     Inr (cleared\<lparr>zbuffer := (zbuffer cleared)((3, 4) := Fin (1 / 2)),
                  graphics := [FillRectangle Blue 3 4 2 2]\<rparr>) \<and>
   drawPoint cleared 0 4 (Fin 2) Blue = Inr cleared \<and>
   drawPoint cleared 3 0 (Fin 2) Blue = Inr cleared"
  using drawPoint_test_and_set [of cleared 3 4 "Fin 2" Blue]
    drawPoint_test_and_set [of cleared 0 4 "Fin 2" Blue]
    drawPoint_test_and_set [of cleared 3 0 "Fin 2" Blue]
  by (simp add: fits_def cleared_def fgt_def)

text \<open>
  C8 as stated fails for an infinite depth: \<open>1/\<infinity>\<close> is \<open>0\<close>, which is greater than the
  \<open>-\<infinity>\<close> of a cleared cell, so the pixel is drawn.
\<close>

theorem infinite_depth_drawn_counterexample:
  "drawPoint cleared 3 4 PInf Blue =
     Inr (cleared\<lparr>zbuffer := (zbuffer cleared)((3, 4) := Fin 0),
                  graphics := [FillRectangle Blue 3 4 2 2]\<rparr>) \<and>
   graphics cleared = []"
  by (simp add: drawPoint_def cleared_def fgt_def)

text \<open>
  C8, amended.  When a pixel's depth is \<open>NaN\<close>, the depth comparison of \<open>drawPoint\<close> fails:
  the pixel is suppressed and no error is signalled.  When the depth is \<open>+\<infinity>\<close> or
  \<open>-\<infinity>\<close>, the candidate is \<open>0\<close>, and the pixel is treated as any pixel with candidate
  \<open>0\<close>: it is drawn exactly when it is inside the bounds and the stored cell is less than
  \<open>0\<close>.
\<close>

theorem degenerate_depth:
  assumes "fits r"
  shows "drawPoint r x y NaN br = Inr r \<and>
         fdiv (Fin 1) PInf = Fin 0 \<and> fdiv (Fin 1) NInf = Fin 0 \<and>
         (z = PInf \<or> z = NInf \<longrightarrow>
            drawPoint r x y z br =
              (if 0 < x \<and> x < viewportX r \<and> 0 < y \<and> y < viewportY r \<and>
                  flt (zbuffer r (x, y)) (Fin 0)
               then Inr (r\<lparr>zbuffer := (zbuffer r)((x, y) := Fin 0),
                           graphics := graphics r @ [FillRectangle br x y 2 2]\<rparr>)
               else Inr r))"
  using assms by (auto simp: drawPoint_def fits_def fgt_def)

theorem degenerate_depth_witness:
  "fits cleared \<and> drawPoint cleared 3 4 NaN Blue = Inr cleared \<and>
   drawPoint cleared 3 4 NInf Blue =
     Inr (cleared\<lparr>zbuffer := (zbuffer cleared)((3, 4) := Fin 0),
                  graphics := [FillRectangle Blue 3 4 2 2]\<rparr>)"
  using degenerate_depth [where r = cleared and x = 3 and y = 4 and z = NInf and br = Blue]
  by (simp add: fits_def cleared_def)

subsection \<open>Runs on the renderer and on a log\<close>

text \<open>
  The loops of \<open>drawLine\<close> and \<open>fillPolygon\<close> take the plotted action as a parameter.
  Two runs of a loop, over actions that preserve a relation between their states, end in
  related states or in the same error.  With \<open>drawPoint\<close> on one side and the log on the
  other, the renderer a rasterizer returns is the fold of \<open>paint\<close> over the pixels it
  submits.
\<close>

lemma rel_res_simps [simp]:
  "rel_res R (Inl e) b = (b = Inl e)"
  "rel_res R (Inr s) (Inr t) = R s t"
  "rel_res R (Inr s) (Inl e) = False"
  by (simp_all add: rel_res_def)

lemma rel_res_bindE:
  assumes "rel_res R a b"
    and "\<And>s t. R s t \<Longrightarrow> rel_res Q (f s) (g t)"
  shows "rel_res Q (bindE a f) (bindE b g)"
  using assms by (cases a; cases b) (auto simp: bindE_def)

lemma rel_res_bindE_same:
  assumes "\<And>v. rel_res Q (f v) (g v)"
  shows "rel_res Q (bindE m f) (bindE m g)"
  using assms by (cases m) (auto simp: bindE_def)

lemma rel_res_Inr: "rel_res R x (Inr t) \<Longrightarrow> \<exists>s. x = Inr s \<and> R s t"
  by (cases x) simp_all

lemma drawPoint_paint: "fits r \<Longrightarrow> drawPoint r x y z br = Inr (paint br (x, y, z) r)"
  by (auto simp: drawPoint_def paint_def fits_def)

lemma paint_frame [simp]:
  "viewportX (paint br q r) = viewportX r" "viewportY (paint br q r) = viewportY r"
  "zlen0 (paint br q r) = zlen0 r" "zlen1 (paint br q r) = zlen1 r"
  by (auto simp: paint_def split: prod.splits)

lemma wfBrush_paint [simp]: "wfBrush (paint br q r) = wfBrush r"
  by (auto simp: paint_def split: prod.splits)

lemma fold_paint_frame [simp]:
  "viewportX (fold (paint br) L r) = viewportX r" "viewportY (fold (paint br) L r) = viewportY r"
  "zlen0 (fold (paint br) L r) = zlen0 r" "zlen1 (fold (paint br) L r) = zlen1 r"
  by (induction L arbitrary: r) simp_all

lemma wfBrush_fold_paint [simp]: "wfBrush (fold (paint br) L r) = wfBrush r"
  by (induction L arbitrary: r) simp_all

lemma fold_paint_fits: "fits r \<Longrightarrow> fits (fold (paint br) L r)"
  by (simp add: fits_def)

subsection \<open>The line rasterizer\<close>

text \<open>
  Inside the \<open>for\<close> loop \<open>dx\<close> is positive, and there the inner loop returns.
\<close>

lemma drawLine_while_returns:
  assumes "0 < dx"
  shows "\<exists>r. drawLine_while isSwap sx sy dx x y e = Some r"
proof (induction "nat (e + 1)" arbitrary: x y e rule: less_induct)
  case less
  show ?case
  proof (cases "e \<ge> 0")
    case True
    with assms have "nat (e - 2 * dx + 1) < nat (e + 1)" by simp
    from less [OF this] True show ?thesis
      by (subst drawLine_while.simps) simp
  next
    case False
    then show ?thesis by (subst drawLine_while.simps) simp
  qed
qed

lemma line_for_sim:
  assumes "\<And>s t x y z. R s t \<Longrightarrow> rel_res R (p1 s x y z) (p2 t x y z)"
    and "R s t"
  shows "rel_res R (drawLine_for p1 from to isSwap sx sy dx dy i x y e s)
                   (drawLine_for p2 from to isSwap sx sy dx dy i x y e t)"
  using assms
proof (induction p1 "from" to isSwap sx sy dx dy i x y e s arbitrary: t rule: drawLine_for.induct)
  case (1 p1 "from" to isSwap sx sy dx dy i x y e s)
  show ?case
  proof (cases "i \<le> dx")
    case False
    then show ?thesis using "1.prems"(2)
      by (simp add: drawLine_for.simps [of _ "from" to isSwap sx sy dx dy i x y e])
  next
    case True
    show ?thesis
    proof (cases "drawLine_while isSwap sx sy dx x y e")
      case None
      have "rel_res R (bindE (p1 s x y z) (\<lambda>s'. Inl Unbounded))
                      (bindE (p2 t x y z) (\<lambda>t'. Inl Unbounded))" for z
        by (rule rel_res_bindE [OF "1.prems"(1) [OF "1.prems"(2)]]) simp
      then show ?thesis using True None
        by (simp add: drawLine_for.simps [of _ "from" to isSwap sx sy dx dy i x y e] Let_def)
    next
      case (Some w)
      obtain x' y' e' where w: "w = (x', y', e')" by (cases w)
      note IH = "1.IH" [OF True refl refl Some [unfolded w] refl refl "1.prems"(1)]
      have "rel_res R
          (bindE (p1 s x y z) (\<lambda>s'. drawLine_for p1 from to isSwap sx sy dx dy (i + 1)
                    (if isSwap then x' else x' + sx) (if isSwap then y' + sy else y')
                    (e' + 2 * dy) s'))
          (bindE (p2 t x y z) (\<lambda>t'. drawLine_for p2 from to isSwap sx sy dx dy (i + 1)
                    (if isSwap then x' else x' + sx) (if isSwap then y' + sy else y')
                    (e' + 2 * dy) t'))" for z
        by (rule rel_res_bindE [OF "1.prems"(1) [OF "1.prems"(2)]]) (rule IH)
      then show ?thesis using True Some w
        by (simp add: drawLine_for.simps [of _ "from" to isSwap sx sy dx dy i x y e] Let_def)
    qed
  qed
qed

lemma line_gen_sim:
  assumes "\<And>s t x y z. R s t \<Longrightarrow> rel_res R (p1 s x y z) (p2 t x y z)"
    and "R s t"
  shows "rel_res R (drawLine_gen p1 s from to) (drawLine_gen p2 t from to)"
  unfolding drawLine_gen_def Let_def
  by (intro rel_res_bindE_same line_for_sim assms)

lemma drawLine_run:
  assumes "fits r" and "drawLine_submits from to = Inr L"
  shows "drawLine r from to = Inr (fold (paint (wfBrush r)) L r)"
proof -
  let ?R = "\<lambda>r' L. r' = fold (paint (wfBrush r)) L r"
  have plot: "rel_res ?R (drawPoint s x y z (wfBrush s)) (submit t x y z)" if "?R s t" for s t x y z
    using that fold_paint_fits [OF assms(1), of "wfBrush r" t]
    by (simp add: drawPoint_paint submit_def)
  have "rel_res ?R (drawLine r from to) (drawLine_submits from to)"
    unfolding drawLine_def drawLine_submits_def
    by (rule line_gen_sim [where R = ?R, OF plot]) simp_all
  from rel_res_Inr [OF this [unfolded assms(2)]] show ?thesis by auto
qed

text \<open>
  C4 as stated has \<open>drawLine((0,0,1),(4,0,1))\<close> submit the five pixels (0,0)..(4,0).  The
  loop runs \<open>dx = 4\<close> times and plots before it steps, so the end point (4,0) is never
  submitted.
\<close>

theorem drawLine_endpoint_counterexample:
  "drawLine_submits (Vector3 (Fin 0) (Fin 0) (Fin 1)) (Vector3 (Fin 4) (Fin 0) (Fin 1)) \<noteq>
     Inr [(0, 0, Fin 1), (1, 0, Fin 1), (2, 0, Fin 1), (3, 0, Fin 1), (4, 0, Fin 1)]"
  by (simp add: line_defs)

text \<open>
  C4, amended.  \<open>drawLine((0,0,1),(4,0,1))\<close> submits exactly the pixels (0,0), (1,0), (2,0),
  (3,0) to the depth test, each with interpolated depth exactly 1; the end point (4,0) is
  not submitted.  \<open>drawLine((0,0,1),(0,0,1))\<close> executes without error, submits no pixel and
  leaves the renderer as it was.
\<close>

theorem drawLine_half_open:
  "drawLine_submits (Vector3 (Fin 0) (Fin 0) (Fin 1)) (Vector3 (Fin 4) (Fin 0) (Fin 1)) =
     Inr [(0, 0, Fin 1), (1, 0, Fin 1), (2, 0, Fin 1), (3, 0, Fin 1)] \<and>
   drawLine_submits (Vector3 (Fin 0) (Fin 0) (Fin 1)) (Vector3 (Fin 0) (Fin 0) (Fin 1)) = Inr [] \<and>
   drawLine r (Vector3 (Fin 0) (Fin 0) (Fin 1)) (Vector3 (Fin 0) (Fin 0) (Fin 1)) = Inr r"
  by (simp add: line_defs drawLine_def)

theorem drawLine_half_open_witness:
  "drawLine cleared (Vector3 (Fin 0) (Fin 0) (Fin 1)) (Vector3 (Fin 0) (Fin 0) (Fin 1)) =
     Inr cleared"
  using drawLine_half_open [of cleared] by simp

subsection \<open>The loops of the triangle filler\<close>

lemma cols_sim:
  assumes "\<And>s t x y z. R s t \<Longrightarrow> rel_res R (p1 s x y z) (p2 t x y z)"
    and "R s t"
  shows "rel_res R (fillPolygon_cols p1 a b c f zs i Bx j s) (fillPolygon_cols p2 a b c f zs i Bx j t)"
  using assms
proof (induction p1 a b c f zs i Bx j s arbitrary: t rule: fillPolygon_cols.induct)
  case (1 p1 a b c f zs i Bx j s)
  show ?case
  proof (cases "fle (of_int_f j) Bx")
    case False
    then show ?thesis
      using "1.prems"
      by (simp add: fillPolygon_cols.simps [of _ a b c f zs i Bx j])
  next
    case True
    let ?z = "dot (barycentric (Vector3 (of_int_f j) (fadd (y3 f) (of_int_f i)) (Fin 0)) a b c) zs"
    show ?thesis
    proof (cases "to_int (fadd (y3 f) (of_int_f i))")
      case (Inl e)
      then show ?thesis using True
        by (simp add: fillPolygon_cols.simps [of _ a b c f zs i Bx j] bindE_def)
    next
      case (Inr y)
      have next_col: "rel_res R
          (if INT_MAX \<le> j then Inl Unbounded
           else fillPolygon_cols p1 a b c f zs i Bx (j + 1) s')
          (if INT_MAX \<le> j then Inl Unbounded
           else fillPolygon_cols p2 a b c f zs i Bx (j + 1) t')" if "R s' t'" for s' t'
      proof (cases "INT_MAX \<le> j")
        case True
        then show ?thesis by simp
      next
        case False
        with "1.IH" [OF True refl refl False "1.prems"(1) that] show ?thesis by simp
      qed
      have "rel_res R
         (bindE (p1 s j y ?z) (\<lambda>s'. if INT_MAX \<le> j then Inl Unbounded
              else fillPolygon_cols p1 a b c f zs i Bx (j + 1) s'))
         (bindE (p2 t j y ?z) (\<lambda>t'. if INT_MAX \<le> j then Inl Unbounded
              else fillPolygon_cols p2 a b c f zs i Bx (j + 1) t'))"
        by (rule rel_res_bindE [OF "1.prems"(1) [OF "1.prems"(2)]]) (rule next_col)
      then show ?thesis using True Inr
        by (simp add: fillPolygon_cols.simps [of _ a b c f zs i Bx j] bindE_def)
    qed
  qed
qed

lemma row_sim:
  assumes "\<And>s t x y z. R s t \<Longrightarrow> rel_res R (p1 s x y z) (p2 t x y z)"
    and "R s t"
  shows "rel_res R (fillPolygon_row p1 a b c f1 f2 f3 zs H i s)
                   (fillPolygon_row p2 a b c f1 f2 f3 zs H i t)"
  unfolding fillPolygon_row_def Let_def
  by (intro rel_res_bindE_same cols_sim assms)

lemma rows_sim:
  assumes "\<And>i s t. R s t \<Longrightarrow> rel_res R (b1 i s) (b2 i t)"
    and "R s t"
  shows "rel_res R (fillPolygon_rows b1 H i s) (fillPolygon_rows b2 H i t)"
  using assms
proof (induction b1 H i s arbitrary: t rule: fillPolygon_rows.induct)
  case (1 b1 H i s)
  show ?case
  proof (cases "i < H")
    case True
    have "rel_res R (bindE (b1 i s) (\<lambda>s'. fillPolygon_rows b1 H (i + 1) s'))
                    (bindE (b2 i t) (\<lambda>t'. fillPolygon_rows b2 H (i + 1) t'))"
      by (rule rel_res_bindE [OF "1.prems"(1) [OF "1.prems"(2)]])
         (rule "1.IH" [OF True "1.prems"(1)])
    then show ?thesis using True
      by (simp add: fillPolygon_rows.simps [of _ H i])
  next
    case False
    then show ?thesis using "1.prems"(2)
      by (simp add: fillPolygon_rows.simps [of _ H i])
  qed
qed

lemma gen_sim:
  assumes "\<And>f1 f2 f3 zs H i s t. R s t \<Longrightarrow>
             rel_res R (row1 f1 f2 f3 zs H i s) (row2 f1 f2 f3 zs H i t)"
    and "R s t"
  shows "rel_res R (fillPolygon_gen row1 s a b c) (fillPolygon_gen row2 t a b c)"
  unfolding fillPolygon_gen_def Let_def
  using assms(2) by (auto split: prod.splits intro!: rel_res_bindE_same rows_sim assms)

lemma fillPolygon_fold:
  assumes "fits r"
  shows "rel_res (\<lambda>r' L. r' = fold (paint br) L r)
           (fillPolygon r a b c br) (fillPolygon_submits a b c)"
proof -
  let ?R = "\<lambda>r' L. r' = fold (paint br) L r"
  have plot: "rel_res ?R (drawPoint s x y z br) (submit t x y z)" if "?R s t" for s t x y z
    using that fold_paint_fits [OF assms, of br t]
    by (simp add: drawPoint_paint submit_def)
  have row: "rel_res ?R
          (fillPolygon_row (\<lambda>r' x y z. drawPoint r' x y z br) a b c f1 f2 f3 zs H i s)
          (fillPolygon_row submit a b c f1 f2 f3 zs H i t)" if "?R s t" for f1 f2 f3 zs H i s t
    by (rule row_sim [where R = ?R, OF plot that])
  show ?thesis
    unfolding fillPolygon_def fillPolygon_submits_def
    by (rule gen_sim [where R = ?R, OF row]) simp_all
qed

lemma fillPolygon_run:
  assumes "fits r" and "fillPolygon_submits a b c = Inr L"
  shows "fillPolygon r a b c br = Inr (fold (paint br) L r)"
  using rel_res_Inr [OF fillPolygon_fold [OF assms(1), of br a b c, unfolded assms(2)]]
  by auto

subsection \<open>The scanline loop\<close>

lemma drawPoints_fold: "fits r \<Longrightarrow> drawPoints br L r = Inr (fold (paint br) L r)"
proof (induction L arbitrary: r)
  case Nil
  show ?case by simp
next
  case (Cons q L)
  have "fits (paint br q r)" using Cons.prems by (simp add: fits_def)
  from Cons.IH [OF this] drawPoint_paint [OF Cons.prems, of "fst q" "fst (snd q)" "snd (snd q)" br]
  show ?case by (simp add: bindE_def)
qed

lemma rel_res_log:
  assumes "rel_res R0 a b" and "\<And>s t. R0 s t \<Longrightarrow> R s (g t)"
  shows "rel_res R a (bindE b (\<lambda>t. Inr (g t)))"
  using assms by (cases a; cases b) (auto simp: bindE_def)

text \<open>The run of \<open>fillPolygon\<close> on a renderer and the recording run end alike.\<close>

lemma fillPolygon_trace_sim:
  assumes "fits r"
  shows "rel_res (\<lambda>r' sl. r' = fold (paint br) (snd sl) r)
           (fillPolygon r a b c br) (fillPolygon_trace a b c)"
proof -
  let ?Q = "\<lambda>r' L. r' = fold (paint br) L r"
  let ?R = "\<lambda>r' (sl :: int list \<times> (int \<times> int \<times> float) list). r' = fold (paint br) (snd sl) r"
  have plot: "rel_res ?Q (drawPoint s x y z br) (submit t x y z)" if "?Q s t" for s t x y z
    using that fold_paint_fits [OF assms, of br t]
    by (simp add: drawPoint_paint submit_def)
  have row: "rel_res ?R
          (fillPolygon_row (\<lambda>r' x y z. drawPoint r' x y z br) a b c f1 f2 f3 zs H i s)
          ((\<lambda>(ls, l). bindE (fillPolygon_row submit a b c f1 f2 f3 zs H i l)
                         (\<lambda>l'. Inr (ls @ [i], l'))) sl)"
    if "?R s sl" for f1 f2 f3 zs H i s sl
  proof -
    obtain ls l where sl: "sl = (ls, l)" by (cases sl)
    have "rel_res ?Q
          (fillPolygon_row (\<lambda>r' x y z. drawPoint r' x y z br) a b c f1 f2 f3 zs H i s)
          (fillPolygon_row submit a b c f1 f2 f3 zs H i l)"
      by (rule row_sim [where R = ?Q, OF plot]) (use that sl in simp_all)
    then have "rel_res ?R
          (fillPolygon_row (\<lambda>r' x y z. drawPoint r' x y z br) a b c f1 f2 f3 zs H i s)
          (bindE (fillPolygon_row submit a b c f1 f2 f3 zs H i l) (\<lambda>l'. Inr (ls @ [i], l')))"
      by (rule rel_res_log) simp
    then show ?thesis by (simp add: sl)
  qed
  show ?thesis
    unfolding fillPolygon_def fillPolygon_trace_def
    by (rule gen_sim [where R = ?R, OF row]) simp_all
qed

text \<open>The scanlines recorded are those from the first to \<open>totalHeight - 1\<close>.\<close>

lemma rows_trace:
  assumes "fillPolygon_rows (\<lambda>i (ls, l). bindE (rowf i l) (\<lambda>l'. Inr (ls @ [i], l'))) H i sl
           = Inr sl'"
  shows "fst sl' = fst sl @ [i..H - 1]"
  using assms
proof (induction "\<lambda>i (ls :: int list, l :: 'a). bindE (rowf i l) (\<lambda>l'. Inr (ls @ [i], l'))"
    H i sl rule: fillPolygon_rows.induct)
  case (1 H i sl)
  obtain ls l where sl: "sl = (ls, l)" by (cases sl)
  show ?case
  proof (cases "i < H")
    case True
    then have u: "[i..H - 1] = i # [i + 1..H - 1]" by (simp add: upto_rec1)
    from "1.prems" True obtain l' where
      "fillPolygon_rows (\<lambda>i (ls, l). bindE (rowf i l) (\<lambda>l'. Inr (ls @ [i], l'))) H (i + 1)
         (ls @ [i], l') = Inr sl'"
      by (auto simp: fillPolygon_rows.simps [of _ H i] sl bindE_def split: sum.splits)
    from "1.hyps" [OF True this] show ?thesis by (simp add: sl u)
  next
    case False
    with "1.prems" show ?thesis
      by (auto simp: fillPolygon_rows.simps [of _ H i])
  qed
qed

lemma sortY_fin:
  fixes ya yb yc :: real
  assumes "sortY (Vector3 xa (Fin ya) za) (Vector3 xb (Fin yb) zb) (Vector3 xc (Fin yc) zc)
           = (f1, f2, f3)"
  shows "y3 f1 = Fin (min ya (min yb yc)) \<and> y3 f3 = Fin (max ya (max yb yc))"
proof -
  consider (abc) "ya \<le> yb" "yb \<le> yc" | (acb) "ya \<le> yc" "yc < yb"
    | (bac) "yb < ya" "ya \<le> yc" | (bca) "yb \<le> yc" "yc < ya"
    | (cab) "yc < ya" "ya \<le> yb" | (cba) "yc < yb" "yb < ya"
    by linarith
  then show ?thesis
  proof cases
    case abc
    then have "max ya (max yb yc) = yc" "min ya (min yb yc) = ya" by simp_all
    with abc assms show ?thesis by (auto simp: sortY_def fgt_def Let_def)
  next
    case acb
    then have "max ya (max yb yc) = yb" "min ya (min yb yc) = ya" by simp_all
    with acb assms show ?thesis by (auto simp: sortY_def fgt_def Let_def)
  next
    case bac
    then have "max ya (max yb yc) = yc" "min ya (min yb yc) = yb" by simp_all
    with bac assms show ?thesis by (auto simp: sortY_def fgt_def Let_def)
  next
    case bca
    then have "max ya (max yb yc) = ya" "min ya (min yb yc) = yb" by simp_all
    with bca assms show ?thesis by (auto simp: sortY_def fgt_def Let_def)
  next
    case cab
    then have "max ya (max yb yc) = yb" "min ya (min yb yc) = yc" by simp_all
    with cab assms show ?thesis by (auto simp: sortY_def fgt_def Let_def)
  next
    case cba
    then have "max ya (max yb yc) = ya" "min ya (min yb yc) = yc" by simp_all
    with cba assms show ?thesis by (auto simp: sortY_def fgt_def Let_def)
  qed
qed

lemma to_int_nonneg: "0 \<le> d \<Longrightarrow> to_int (Fin d) = Inr H \<Longrightarrow> H = \<lfloor>d\<rfloor>"
  by (simp add: Let_def split: if_splits)

lemma fillPolygon_trace_scanlines:
  fixes ya yb yc :: real
  assumes nd: "\<not> (ya = yb \<and> ya = yc)"
    and run: "fillPolygon_trace (Vector3 xa (Fin ya) za) (Vector3 xb (Fin yb) zb)
                (Vector3 xc (Fin yc) zc) = Inr sl"
  shows "fst sl = [0 .. \<lfloor>max ya (max yb yc) - min ya (min yb yc)\<rfloor> - 1] \<and>
         to_int (Fin (max ya (max yb yc) - min ya (min yb yc)))
           = Inr \<lfloor>max ya (max yb yc) - min ya (min yb yc)\<rfloor>"
proof -
  let ?d = "max ya (max yb yc) - min ya (min yb yc)"
  have d: "0 \<le> ?d" by auto
  obtain f1 f2 f3 where
    srt: "sortY (Vector3 xa (Fin ya) za) (Vector3 xb (Fin yb) zb) (Vector3 xc (Fin yc) zc)
          = (f1, f2, f3)"
    by (cases "sortY (Vector3 xa (Fin ya) za) (Vector3 xb (Fin yb) zb) (Vector3 xc (Fin yc) zc)")
  note ys = sortY_fin [OF srt]
  from run nd obtain H where
    H: "to_int (Fin ?d) = Inr H"
    and rows: "fillPolygon_rows
          (\<lambda>i (ls, l). bindE (fillPolygon_row submit (Vector3 xa (Fin ya) za)
               (Vector3 xb (Fin yb) zb) (Vector3 xc (Fin yc) zc) f1 f2 f3
               (Vector3 (z3 f1) (z3 f2) (z3 f3)) H i l) (\<lambda>l'. Inr (ls @ [i], l')))
          H 0 ([], []) = Inr sl"
    unfolding fillPolygon_trace_def fillPolygon_gen_def srt
    by (auto simp: ys feq_def fsub_def bindE_def Let_def split: sum.splits if_splits)
  from to_int_nonneg [OF d H] have "H = \<lfloor>?d\<rfloor>" .
  with rows_trace [OF rows] H show ?thesis by simp
qed

text \<open>
  C3 as stated has the loop visit scanline \<open>i = totalHeight\<close>, the row of the highest
  vertex.  For the triangle (1,1), (5,1), (1,5), with \<open>totalHeight = 4\<close>, the scanlines
  whose body runs are 0, 1, 2, 3; on a cleared renderer the pixel (1,5) of the highest
  vertex is never submitted: its cell keeps \<open>-\<infinity>\<close> and no rectangle is painted there.
\<close>

theorem fillPolygon_last_scanline_counterexample:
  "(case fillPolygon_trace (Vector3 (Fin 1) (Fin 1) (Fin 1)) (Vector3 (Fin 5) (Fin 1) (Fin 1))
      (Vector3 (Fin 1) (Fin 5) (Fin 1)) of
      Inl e \<Rightarrow> None | Inr sl \<Rightarrow> Some (fst sl)) = Some [0, 1, 2, 3] \<and>
   to_int (fsub (Fin 5) (Fin 1)) = Inr 4 \<and>
   (case fillPolygon cleared (Vector3 (Fin 1) (Fin 1) (Fin 1)) (Vector3 (Fin 5) (Fin 1) (Fin 1))
      (Vector3 (Fin 1) (Fin 5) (Fin 1)) Blue of
      Inl e \<Rightarrow> None
    | Inr r' \<Rightarrow> Some (zbuffer r' (1, 5), last_fill (graphics r') (1, 5))) = Some (NInf, None)"
  by (simp add: fillPolygon_trace_def fillPolygon_def fill_defs drawPoint_def cleared_def)

text \<open>
  C3, amended.  On a renderer whose viewport lies within the depth-buffer array, for every
  triangle with finite y-coordinates that are not all three equal, whenever \<open>fillPolygon\<close>
  returns, it has iterated the scanlines \<open>i\<close> from 0 to \<open>totalHeight - 1\<close> inclusive, that
  is \<open>totalHeight\<close> scanlines, and has submitted the pixels of these scanlines to
  \<open>drawPoint\<close>; here \<open>totalHeight\<close> is \<open>third.y - first.y\<close> converted to \<open>int\<close>, and
  \<open>first\<close>, \<open>third\<close> are the vertices of minimum and maximum y.  Scanline \<open>totalHeight\<close>
  is not visited.
\<close>

theorem fillPolygon_scanline_range:
  fixes ya yb yc :: real
  assumes fits: "fits r"
    and nd: "\<not> (ya = yb \<and> ya = yc)"
    and run: "fillPolygon r (Vector3 xa (Fin ya) za) (Vector3 xb (Fin yb) zb)
                (Vector3 xc (Fin yc) zc) br = Inr r'"
  shows "\<exists>L. fillPolygon_trace (Vector3 xa (Fin ya) za) (Vector3 xb (Fin yb) zb)
                (Vector3 xc (Fin yc) zc)
              = Inr ([0 .. \<lfloor>max ya (max yb yc) - min ya (min yb yc)\<rfloor> - 1], L) \<and>
             drawPoints br L r = Inr r' \<and>
             to_int (Fin (max ya (max yb yc) - min ya (min yb yc)))
               = Inr \<lfloor>max ya (max yb yc) - min ya (min yb yc)\<rfloor>"
proof -
  from fillPolygon_trace_sim [OF fits, of br "Vector3 xa (Fin ya) za" "Vector3 xb (Fin yb) zb"
      "Vector3 xc (Fin yc) zc"] run
  obtain sl where tr: "fillPolygon_trace (Vector3 xa (Fin ya) za) (Vector3 xb (Fin yb) zb)
                (Vector3 xc (Fin yc) zc) = Inr sl"
    and r': "r' = fold (paint br) (snd sl) r"
    by (cases "fillPolygon_trace (Vector3 xa (Fin ya) za) (Vector3 xb (Fin yb) zb)
                (Vector3 xc (Fin yc) zc)") auto
  from fillPolygon_trace_scanlines [OF nd tr]
  have "sl = ([0 .. \<lfloor>max ya (max yb yc) - min ya (min yb yc)\<rfloor> - 1], snd sl)"
    and "to_int (Fin (max ya (max yb yc) - min ya (min yb yc)))
               = Inr \<lfloor>max ya (max yb yc) - min ya (min yb yc)\<rfloor>"
    by (simp_all add: prod_eq_iff)
  with tr r' drawPoints_fold [OF fits, of br "snd sl"] show ?thesis
    by metis
qed

theorem fillPolygon_scanline_range_witness:
  "fits cleared \<and> \<not> ((1::real) = 1 \<and> (1::real) = 5) \<and>
   fillPolygon cleared (Vector3 (Fin 1) (Fin 1) (Fin 1)) (Vector3 (Fin 5) (Fin 1) (Fin 1))
      (Vector3 (Fin 1) (Fin 5) (Fin 1)) Blue =
     Inr (fold (paint Blue)
       [(1, 1, Fin 1), (2, 1, Fin 1), (3, 1, Fin 1), (4, 1, Fin 1), (5, 1, Fin 1),
        (1, 2, Fin 1), (2, 2, Fin 1), (3, 2, Fin 1), (4, 2, Fin 1),
        (1, 3, Fin 1), (2, 3, Fin 1), (3, 3, Fin 1),
        (1, 4, Fin 1), (2, 4, Fin 1)] cleared) \<and>
   (\<exists>L. fillPolygon_trace (Vector3 (Fin 1) (Fin 1) (Fin 1)) (Vector3 (Fin 5) (Fin 1) (Fin 1))
           (Vector3 (Fin 1) (Fin 5) (Fin 1)) = Inr ([0, 1, 2, 3], L))"
proof -
  have f: "fits cleared" by (simp add: fits_def cleared_def)
  have nd: "\<not> ((1::real) = 1 \<and> (1::real) = 5)" by simp
  have s: "fillPolygon_submits (Vector3 (Fin 1) (Fin 1) (Fin 1)) (Vector3 (Fin 5) (Fin 1) (Fin 1))
      (Vector3 (Fin 1) (Fin 5) (Fin 1)) =
     Inr [(1, 1, Fin 1), (2, 1, Fin 1), (3, 1, Fin 1), (4, 1, Fin 1), (5, 1, Fin 1),
        (1, 2, Fin 1), (2, 2, Fin 1), (3, 2, Fin 1), (4, 2, Fin 1),
        (1, 3, Fin 1), (2, 3, Fin 1), (3, 3, Fin 1),
        (1, 4, Fin 1), (2, 4, Fin 1)]"
    by (simp add: fillPolygon_submits_def fill_defs)
  note run = fillPolygon_run [OF f s, of Blue]
  from fillPolygon_scanline_range [OF f nd run] f nd run show ?thesis
    by (auto simp: upto_rec1)
qed

subsection \<open>Depth interpolation in the triangle filler\<close>

text \<open>
  Every pixel \<open>fillPolygon\<close> submits has the depth \<open>barycentric\<close> gives it, called on the
  three vertices as they were passed and on a query point with \<open>z = 0\<close>.
\<close>

lemma cols_inv:
  assumes "fillPolygon_cols submit a b c f zs i Bx j l = Inr L"
    and "0 \<le> i"
    and "\<forall>q\<in>set l. interpolated_at f zs a b c q"
  shows "\<forall>q\<in>set L. interpolated_at f zs a b c q"
  using assms
proof (induction "submit" a b c f zs i Bx j l arbitrary: L rule: fillPolygon_cols.induct)
  case (1 a b c f zs i Bx j l)
  show ?case
  proof (cases "fle (of_int_f j) Bx")
    case False
    then show ?thesis
      using "1.prems"
      by (simp add: fillPolygon_cols.simps [of _ a b c f zs i Bx j])
  next
    case True
    let ?z = "dot (barycentric (Vector3 (of_int_f j) (fadd (y3 f) (of_int_f i)) (Fin 0)) a b c) zs"
    from "1.prems"(1) True obtain y where
      y: "to_int (fadd (y3 f) (of_int_f i)) = Inr y"
      and j: "\<not> INT_MAX \<le> j"
      and run: "fillPolygon_cols submit a b c f zs i Bx (j + 1) (l @ [(j, y, ?z)]) = Inr L"
      by (auto simp: fillPolygon_cols.simps [of _ a b c f zs i Bx j] bindE_def Let_def submit_def
          split: sum.splits if_splits)
    have "interpolated_at f zs a b c (j, y, ?z)"
      unfolding interpolated_at_def using y "1.prems"(2) by auto
    with "1.prems"(3) have "\<forall>q\<in>set (l @ [(j, y, ?z)]). interpolated_at f zs a b c q" by simp
    from "1.hyps" [OF True refl refl j run "1.prems"(2) this]
    show ?thesis .
  qed
qed

lemma row_inv:
  assumes "fillPolygon_row submit a b c f1 f2 f3 zs H i l = Inr L"
    and "0 \<le> i"
    and "\<forall>q\<in>set l. interpolated_at f1 zs a b c q"
  shows "\<forall>q\<in>set L. interpolated_at f1 zs a b c q"
  using assms(1) unfolding fillPolygon_row_def Let_def bindE_def
  by (auto split: sum.splits dest!: cols_inv [OF _ assms(2) assms(3)])

lemma rows_inv:
  assumes "\<And>i l L. i0 \<le> i \<Longrightarrow> body i l = Inr L \<Longrightarrow> Inv l \<Longrightarrow> Inv L"
    and "fillPolygon_rows body H i l = Inr L" and "i0 \<le> i" and "Inv l"
  shows "Inv L"
  using assms
proof (induction body H i l arbitrary: L rule: fillPolygon_rows.induct)
  case (1 body H i l)
  show ?case
  proof (cases "i < H")
    case True
    with "1.prems"(2) obtain l' where b: "body i l = Inr l'"
      and r: "fillPolygon_rows body H (i + 1) l' = Inr L"
      by (auto simp: fillPolygon_rows.simps [of _ H i] bindE_def split: sum.splits)
    from "1.prems"(3) have "i0 \<le> i + 1" by simp
    from "1.IH" [OF True "1.prems"(1) r this "1.prems"(1) [OF "1.prems"(3) b "1.prems"(4)]]
    show ?thesis .
  next
    case False
    with "1.prems" show ?thesis
      by (simp add: fillPolygon_rows.simps [of _ H i])
  qed
qed

lemma submits_inv:
  assumes "fillPolygon_submits a b c = Inr L"
  shows "\<forall>q\<in>set L. interpolated a b c q"
proof (cases "feq (y3 a) (y3 b) \<and> feq (y3 a) (y3 c)")
  case True
  with assms show ?thesis
    by (simp add: fillPolygon_submits_def fillPolygon_gen_def)
next
  case False
  obtain f1 f2 f3 where srt: "sortY a b c = (f1, f2, f3)" by (cases "sortY a b c")
  let ?zs = "Vector3 (z3 f1) (z3 f2) (z3 f3)"
  from assms False obtain H where
    rows: "fillPolygon_rows (fillPolygon_row submit a b c f1 f2 f3 ?zs H) H 0 [] = Inr L"
    unfolding fillPolygon_submits_def fillPolygon_gen_def srt
    by (auto simp: bindE_def Let_def split: sum.splits)
  have "\<forall>q\<in>set L. interpolated_at f1 ?zs a b c q"
  proof (rule rows_inv [where Inv = "\<lambda>l. \<forall>q\<in>set l. interpolated_at f1 ?zs a b c q"
        and ?i0.0 = 0, OF _ rows])
    fix i l L'
    assume i: "0 \<le> (i::int)"
      and row: "fillPolygon_row submit a b c f1 f2 f3 ?zs H i l = Inr L'"
      and inv: "\<forall>q\<in>set l. interpolated_at f1 ?zs a b c q"
    show "\<forall>q\<in>set L'. interpolated_at f1 ?zs a b c q"
      by (rule row_inv [OF row i inv])
  qed simp_all
  then show ?thesis by (simp add: interpolated_def srt)
qed

lemma fillPolygon_draws:
  assumes "fits r" and "fillPolygon r a b c br = Inr r'"
  shows "\<exists>L. fillPolygon_submits a b c = Inr L \<and> drawPoints br L r = Inr r' \<and>
             (\<forall>q\<in>set L. interpolated a b c q)"
proof -
  from fillPolygon_fold [OF assms(1), of br a b c] assms(2)
  obtain L where L: "fillPolygon_submits a b c = Inr L" and r': "r' = fold (paint br) L r"
    by (cases "fillPolygon_submits a b c") auto
  with drawPoints_fold [OF assms(1), of br L] submits_inv [OF L] show ?thesis by blast
qed

text \<open>
  C10.  \<open>fillPolygon\<close> computes the weights of a pixel with \<open>barycentric\<close> over
  3-component vectors: the three vertices are passed with their depths, the query point
  for the pixel with \<open>z = 0\<close>.  Whenever \<open>fillPolygon\<close> returns, the renderer is the one
  left by submitting to \<open>drawPoint\<close>, in order, pixels that each carry the depth so
  interpolated.  Consequently the weights are not those of the pixel in the x,y plane: for
  the triangle (0,0,1), (4,0,2), (0,4,3) the weights of the pixel (1,1) are
  (3/4, 1/6, 1/12) and its depth is 4/3, so that a cleared renderer stores 3/4 in the cell
  of (1,1); the weights in the x,y plane are (1/2, 1/4, 1/4) and interpolate the depth 7/4,
  which is not a depth \<open>fillPolygon\<close> gives the pixel and would store 4/7.
\<close>

theorem fillPolygon_depth_not_planar:
  "(fits r \<and> fillPolygon r a b c br = Inr r' \<longrightarrow>
      (\<exists>L. fillPolygon_submits a b c = Inr L \<and> drawPoints br L r = Inr r' \<and>
           (\<forall>q\<in>set L. interpolated a b c q))) \<and>
   (case fillPolygon cleared (Vector3 (Fin 0) (Fin 0) (Fin 1)) (Vector3 (Fin 4) (Fin 0) (Fin 2))
      (Vector3 (Fin 0) (Fin 4) (Fin 3)) Blue of
      Inl e \<Rightarrow> None | Inr r' \<Rightarrow> Some (zbuffer r' (1, 1))) = Some (Fin (3 / 4)) \<and>
   interpolated (Vector3 (Fin 0) (Fin 0) (Fin 1)) (Vector3 (Fin 4) (Fin 0) (Fin 2))
      (Vector3 (Fin 0) (Fin 4) (Fin 3)) (1, 1, Fin (4 / 3)) \<and>
   \<not> interpolated (Vector3 (Fin 0) (Fin 0) (Fin 1)) (Vector3 (Fin 4) (Fin 0) (Fin 2))
      (Vector3 (Fin 0) (Fin 4) (Fin 3)) (1, 1, Fin (7 / 4)) \<and>
   barycentric (Vector3 (Fin 1) (Fin 1) (Fin 0)) (Vector3 (Fin 0) (Fin 0) (Fin 1))
      (Vector3 (Fin 4) (Fin 0) (Fin 2)) (Vector3 (Fin 0) (Fin 4) (Fin 3)) =
      Vector3 (Fin (3 / 4)) (Fin (1 / 6)) (Fin (1 / 12)) \<and>
   dot (Vector3 (Fin (3 / 4)) (Fin (1 / 6)) (Fin (1 / 12))) (Vector3 (Fin 1) (Fin 2) (Fin 3)) =
      Fin (4 / 3) \<and>
   barycentric2D (Vector3 (Fin 1) (Fin 1) (Fin 0)) (Vector3 (Fin 0) (Fin 0) (Fin 1))
      (Vector3 (Fin 4) (Fin 0) (Fin 2)) (Vector3 (Fin 0) (Fin 4) (Fin 3)) =
      Vector3 (Fin (1 / 2)) (Fin (1 / 4)) (Fin (1 / 4)) \<and>
   dot (Vector3 (Fin (1 / 2)) (Fin (1 / 4)) (Fin (1 / 4))) (Vector3 (Fin 1) (Fin 2) (Fin 3)) =
      Fin (7 / 4) \<and>
   fdiv (Fin 1) (Fin (4 / 3)) = Fin (3 / 4) \<and> fdiv (Fin 1) (Fin (7 / 4)) = Fin (4 / 7)"
proof -
  let ?a = "Vector3 (Fin 0) (Fin 0) (Fin 1)" and ?b = "Vector3 (Fin 4) (Fin 0) (Fin 2)"
    and ?c = "Vector3 (Fin 0) (Fin 4) (Fin 3)"
  have general: "fits r \<and> fillPolygon r a b c br = Inr r' \<longrightarrow>
      (\<exists>L. fillPolygon_submits a b c = Inr L \<and> drawPoints br L r = Inr r' \<and>
           (\<forall>q\<in>set L. interpolated a b c q))"
    using fillPolygon_draws by blast
  have cell: "(case fillPolygon cleared ?a ?b ?c Blue of
      Inl e \<Rightarrow> None | Inr r' \<Rightarrow> Some (zbuffer r' (1, 1))) = Some (Fin (3 / 4))"
    by (simp add: fillPolygon_def fill_defs drawPoint_def cleared_def)
  have srt: "sortY ?a ?b ?c = (?a, ?b, ?c)"
    by (simp add: sortY_def fgt_def)
  have at: "dot (barycentric (Vector3 (of_int_f 1) (fadd (Fin 0) (of_int_f 1)) (Fin 0)) ?a ?b ?c)
              (Vector3 (Fin 1) (Fin 2) (Fin 3)) = Fin (4 / 3)"
    by (simp add: fill_defs)
  have yes: "interpolated ?a ?b ?c (1, 1, Fin (4 / 3))"
    unfolding interpolated_def srt interpolated_at_def
    by (simp, rule exI [of _ 1]) (simp add: at, simp add: of_int_f_def INT_MIN_def INT_MAX_def)
  have no: "\<not> interpolated ?a ?b ?c (1, 1, Fin (7 / 4))"
  proof
    assume "interpolated ?a ?b ?c (1, 1, Fin (7 / 4))"
    then obtain i where i: "to_int (fadd (Fin 0) (of_int_f i)) = Inr 1"
      and z: "Fin (7 / 4) =
          dot (barycentric (Vector3 (of_int_f 1) (fadd (Fin 0) (of_int_f i)) (Fin 0)) ?a ?b ?c)
              (Vector3 (Fin 1) (Fin 2) (Fin 3))"
      unfolding interpolated_def srt interpolated_at_def by auto
    from i have "i = 1"
      by (simp add: of_int_f_def Let_def split: if_splits)
    with z at show False by simp
  qed
  from general cell yes no show ?thesis
    by (simp add: fill_defs barycentric2D_def flat_def)
qed

theorem fillPolygon_depth_not_planar_witness:
  "fits cleared \<and>
   fillPolygon cleared (Vector3 (Fin 0) (Fin 0) (Fin 1)) (Vector3 (Fin 4) (Fin 0) (Fin 2))
      (Vector3 (Fin 0) (Fin 4) (Fin 3)) Blue =
     Inr (fold (paint Blue)
       [(0, 0, Fin (16 / 21)), (1, 0, Fin (20 / 21)),
        (2, 0, Fin (8 / 7)), (3, 0, Fin (4 / 3)), (4, 0, Fin (32 / 21)),
        (0, 1, Fin (8 / 7)), (1, 1, Fin (4 / 3)), (2, 1, Fin (32 / 21)),
        (3, 1, Fin (12 / 7)), (0, 2, Fin (32 / 21)),
        (1, 2, Fin (12 / 7)), (2, 2, Fin (40 / 21)),
        (0, 3, Fin (40 / 21)), (1, 3, Fin (44 / 21))] cleared) \<and>
   interpolated (Vector3 (Fin 0) (Fin 0) (Fin 1)) (Vector3 (Fin 4) (Fin 0) (Fin 2))
      (Vector3 (Fin 0) (Fin 4) (Fin 3)) (2, 1, Fin (32 / 21))"
proof -
  let ?L = "[(0, 0, Fin (16 / 21)), (1, 0, Fin (20 / 21)),
        (2, 0, Fin (8 / 7)), (3, 0, Fin (4 / 3)), (4, 0, Fin (32 / 21)),
        (0, 1, Fin (8 / 7)), (1, 1, Fin (4 / 3)), (2, 1, Fin (32 / 21)),
        (3, 1, Fin (12 / 7)), (0, 2, Fin (32 / 21)),
        (1, 2, Fin (12 / 7)), (2, 2, Fin (40 / 21)),
        (0, 3, Fin (40 / 21)), (1, 3, Fin (44 / 21))] :: (int \<times> int \<times> float) list"
  have f: "fits cleared" by (simp add: fits_def cleared_def)
  have s: "fillPolygon_submits (Vector3 (Fin 0) (Fin 0) (Fin 1)) (Vector3 (Fin 4) (Fin 0) (Fin 2))
      (Vector3 (Fin 0) (Fin 4) (Fin 3)) = Inr ?L"
    by (simp add: fillPolygon_submits_def fill_defs)
  note run = fillPolygon_run [OF f s, of Blue]
  from fillPolygon_depth_not_planar [of cleared "Vector3 (Fin 0) (Fin 0) (Fin 1)"
      "Vector3 (Fin 4) (Fin 0) (Fin 2)" "Vector3 (Fin 0) (Fin 4) (Fin 3)" Blue
      "fold (paint Blue) ?L cleared"] f run s
  have "\<forall>q\<in>set ?L. interpolated (Vector3 (Fin 0) (Fin 0) (Fin 1))
      (Vector3 (Fin 4) (Fin 0) (Fin 2)) (Vector3 (Fin 0) (Fin 4) (Fin 3)) q"
    by auto
  then have "interpolated (Vector3 (Fin 0) (Fin 0) (Fin 1)) (Vector3 (Fin 4) (Fin 0) (Fin 2))
      (Vector3 (Fin 0) (Fin 4) (Fin 3)) (2, 1, Fin (32 / 21))"
    by simp
  with f run show ?thesis by blast
qed

subsection \<open>Draw order\<close>

text \<open>
  C9 as stated makes the final pixel colours independent of the draw order.  Every accepted
  pixel paints a 2 x 2 rectangle, which also covers its right and lower neighbours.  Take
  the yellow triangle A = (2,1,1), (4,1,1), (2,3,1) and the blue triangle
  B = (1,1,2), (3,1,2), (1,3,2) on a cleared 10 x 10 renderer: A is closer wherever both
  submit a pixel (1/z is 1 against 1/2).  Pixel (2,1) belongs to both.  Filling A then B
  leaves it blue, painted over by the rectangle B draws at (1,1); filling B then A leaves
  it yellow.
\<close>

theorem fill_order_counterexample:
  "(case bindE (fillPolygon cleared (Vector3 (Fin 2) (Fin 1) (Fin 1)) (Vector3 (Fin 4) (Fin 1) (Fin 1))
                  (Vector3 (Fin 2) (Fin 3) (Fin 1)) Yellow)
          (\<lambda>r. fillPolygon r (Vector3 (Fin 1) (Fin 1) (Fin 2)) (Vector3 (Fin 3) (Fin 1) (Fin 2))
                  (Vector3 (Fin 1) (Fin 3) (Fin 2)) Blue) of
      Inl e \<Rightarrow> None | Inr r \<Rightarrow> pixel_color (graphics r) (2, 1)) = Some Blue \<and>
   (case bindE (fillPolygon cleared (Vector3 (Fin 1) (Fin 1) (Fin 2)) (Vector3 (Fin 3) (Fin 1) (Fin 2))
                  (Vector3 (Fin 1) (Fin 3) (Fin 2)) Blue)
          (\<lambda>r. fillPolygon r (Vector3 (Fin 2) (Fin 1) (Fin 1)) (Vector3 (Fin 4) (Fin 1) (Fin 1))
                  (Vector3 (Fin 2) (Fin 3) (Fin 1)) Yellow) of
      Inl e \<Rightarrow> None | Inr r \<Rightarrow> pixel_color (graphics r) (2, 1)) = Some Yellow"
  by (simp add: fillPolygon_def fill_defs drawPoint_def cleared_def)

text \<open>
  One pixel: the greatest candidate wins, whatever the order.
\<close>

lemma fgt_irrefl [simp]: "\<not> fgt a a"
  by (cases a) (simp_all add: fgt_def)

lemma fgt_trans: "fgt a b \<Longrightarrow> fgt b c \<Longrightarrow> fgt a c"
  by (cases a; cases b; cases c) (simp_all add: fgt_def)

lemma higher_commute: "higher a (higher b v) = higher b (higher a v)"
  by (cases a; cases b; cases v) (auto simp: higher_def fgt_def)

lemma fold_higher_mem: "fold higher C v \<in> insert v (set C)"
  by (induction C arbitrary: v) (fastforce simp: higher_def)+

lemma fold_higher_grow: "fold higher C v = v \<or> fgt (fold higher C v) v"
proof (induction C arbitrary: v)
  case Nil
  show ?case by simp
next
  case (Cons c C)
  from Cons [of "higher c v"] show ?case
    by (auto simp: higher_def dest: fgt_trans)
qed

lemma fold_higher_top: "c \<in> set C \<Longrightarrow> \<not> fgt c (fold higher C v)"
proof (induction C arbitrary: v)
  case Nil
  then show ?case by simp
next
  case (Cons c' C)
  show ?case
  proof (cases "c = c'")
    case True
    have "\<not> fgt c' (higher c' v)" by (simp add: higher_def)
    with fold_higher_grow [of C "higher c' v"] True show ?thesis
      by (auto dest: fgt_trans)
  next
    case False
    with Cons show ?thesis by simp
  qed
qed

lemma fold_higher_commute:
  "fold higher B (fold higher A v) = fold higher A (fold higher B v)"
proof -
  have "higher a \<circ> fold higher B = fold higher B \<circ> higher a" for a
    by (rule fold_commute) (simp add: fun_eq_iff higher_commute)
  then have "fold higher B \<circ> higher a = higher a \<circ> fold higher B" for a
    by simp
  then show ?thesis
    by (intro fold_commute_apply) simp
qed

lemma fold_own:
  "fold (own br) C (v, k) = (fold higher C v, if fold higher C v \<noteq> v then Some br else k)"
proof (induction C arbitrary: v k)
  case Nil
  show ?case by simp
next
  case (Cons c C)
  show ?case
  proof (cases "fgt c v")
    case True
    from fold_higher_grow [of C c] True have ne: "fold higher C c \<noteq> v"
      by (auto dest: fgt_trans)
    from True have h: "higher c v = c" and w: "own br c (v, k) = (c, Some br)"
      by (simp_all add: own_def higher_def)
    show ?thesis
      using ne by (simp add: h w Cons [of c "Some br"])
  next
    case False
    then have h: "higher c v = v" and w: "own br c (v, k) = (v, k)"
      by (simp_all add: own_def higher_def)
    show ?thesis
      by (simp add: h w Cons [of v k])
  qed
qed

lemma owner_order:
  assumes dist: "\<And>ca cb. ca \<in> set A \<Longrightarrow> cb \<in> set B \<Longrightarrow> ca \<noteq> cb"
  shows "fold (own b) B (fold (own a) A (v, k)) = fold (own a) A (fold (own b) B (v, k))"
proof -
  let ?v1 = "fold higher A v" and ?w1 = "fold higher B v"
  let ?v2 = "fold higher B ?v1" and ?w2 = "fold higher A ?w1"
  have eq: "?v2 = ?w2" by (rule fold_higher_commute)
  have own_eq: "(if ?v2 \<noteq> ?v1 then Some b else if ?v1 \<noteq> v then Some a else k)
              = (if ?w2 \<noteq> ?w1 then Some a else if ?w1 \<noteq> v then Some b else k)"
  proof (cases "?v2 = ?v1")
    case False
    then have mem: "?v2 \<in> set B" using fold_higher_mem [of B ?v1] by auto
    from False have gt: "fgt ?v2 ?v1" using fold_higher_grow [of B ?v1] by auto
    have "\<not> fgt ?v2 ?w1" by (rule fold_higher_top [OF mem])
    then have w21: "?w2 = ?w1" using fold_higher_grow [of A ?w1] eq by auto
    have "?w1 \<noteq> v"
    proof
      assume "?w1 = v"
      then have "fgt v ?v1" using gt eq w21 by simp
      with fold_higher_grow [of A v] show False by (auto dest: fgt_trans)
    qed
    with False w21 show ?thesis by simp
  next
    case True
    show ?thesis
    proof (cases "?v1 = v")
      case False
      then have mem: "?v1 \<in> set A" using fold_higher_mem [of A v] by auto
      have "?w1 \<noteq> ?v1"
      proof
        assume e: "?w1 = ?v1"
        with fold_higher_mem [of B v] False have "?v1 \<in> set B" by auto
        from dist [OF mem this] show False by simp
      qed
      with True False eq show ?thesis by simp
    next
      case v1: True
      have "?w2 = v" using eq True v1 by simp
      with fold_higher_grow [of A ?w1] fold_higher_grow [of B v]
      have "?w1 = v" by (auto dest: fgt_trans)
      with True v1 eq show ?thesis by simp
    qed
  qed
  have l: "fold (own b) B (fold (own a) A (v, k))
           = (?v2, if ?v2 \<noteq> ?v1 then Some b else if ?v1 \<noteq> v then Some a else k)"
    by (simp only: fold_own)
  have r: "fold (own a) A (fold (own b) B (v, k))
           = (?w2, if ?w2 \<noteq> ?w1 then Some a else if ?w1 \<noteq> v then Some b else k)"
    by (simp only: fold_own)
  show ?thesis
    by (simp only: l r eq own_eq [unfolded eq])
qed

lemma owner_closer:
  assumes mem: "ca \<in> set A" and pass: "fgt ca v" and closer: "\<forall>cb\<in>set B. fgt ca cb"
  shows "snd (fold (own b) B (fold (own a) A (v, k))) = Some a"
    and "snd (fold (own a) A (fold (own b) B (v, k))) = Some a"
proof -
  let ?v1 = "fold higher A v" and ?w1 = "fold higher B v"
  let ?v2 = "fold higher B ?v1" and ?w2 = "fold higher A ?w1"
  have top1: "\<not> fgt ca ?v1" by (rule fold_higher_top [OF mem])
  have top2: "\<not> fgt ca ?w2" by (rule fold_higher_top [OF mem])
  have v1: "?v1 \<noteq> v" using top1 pass by auto
  have v2: "?v2 = ?v1"
  proof (rule ccontr)
    assume ne: "?v2 \<noteq> ?v1"
    then have "?v2 \<in> set B" using fold_higher_mem [of B ?v1] by auto
    with closer have "fgt ca ?v2" by simp
    moreover from ne have "fgt ?v2 ?v1" using fold_higher_grow [of B ?v1] by auto
    ultimately show False using top1 by (auto dest: fgt_trans)
  qed
  have "fgt ca ?w1" using fold_higher_mem [of B v] pass closer by auto
  then have w2: "?w2 \<noteq> ?w1" using top2 by auto
  show "snd (fold (own b) B (fold (own a) A (v, k))) = Some a"
    using v1 v2 by (simp add: fold_own)
  show "snd (fold (own a) A (fold (own b) B (v, k))) = Some a"
    using w2 by (simp add: fold_own)
qed

lemma last_fill_snoc:
  "last_fill (gs @ [FillRectangle c x y w h]) p = (if (x, y) = p then Some c else last_fill gs p)"
proof (induction gs)
  case Nil
  show ?case by simp
next
  case (Cons g gs)
  then show ?case by (cases g) (simp split: option.splits)
qed

lemma inb_paint [simp]: "inb (paint br q r) p = inb r p"
  by (simp add: inb_def)

lemma view_paint:
  "view (paint br q r) p =
     (if inb r p \<and> (fst q, fst (snd q)) = p then own br (fdiv (Fin 1) (snd (snd q))) (view r p)
      else view r p)"
  by (cases q) (auto simp: paint_def view_def own_def inb_def last_fill_snoc)

lemma view_fold:
  "view (fold (paint br) L r) p =
     (if inb r p then fold (own br) (cands p L) (view r p) else view r p)"
proof (induction L arbitrary: r)
  case Nil
  show ?case by (simp add: cands_def)
next
  case (Cons q L)
  show ?case
    by (simp add: Cons view_paint) (simp add: cands_def)
qed

text \<open>
  C9, amended.  On a renderer whose viewport lies within the depth-buffer array, for every
  two triangles A and B whose fills run without error, filling A then B and filling B then A
  both succeed and leave the same depth buffer; when A and B have distinct reciprocal
  depths at every pixel both submit, the rectangle last painted at each pixel position is of
  the same colour in both orders; and where A submits a pixel inside the bounds that passes
  the test against the initial cell and is closer (greater 1/z) than every pixel B submits
  there, that colour is A's in both orders.  The final colours of the surface can still
  differ, since each rectangle is 2 x 2 and covers the neighbouring pixels.
\<close>

theorem fill_order:
  assumes fits: "fits r"
    and A: "fillPolygon_submits a1 a2 a3 = Inr LA"
    and B: "fillPolygon_submits b1 b2 b3 = Inr LB"
  shows "\<exists>rAB rBA.
           bindE (fillPolygon r a1 a2 a3 brA) (\<lambda>r'. fillPolygon r' b1 b2 b3 brB) = Inr rAB \<and>
           bindE (fillPolygon r b1 b2 b3 brB) (\<lambda>r'. fillPolygon r' a1 a2 a3 brA) = Inr rBA \<and>
           zbuffer rAB = zbuffer rBA \<and>
           ((\<forall>x y za zb. (x, y, za) \<in> set LA \<and> (x, y, zb) \<in> set LB \<longrightarrow>
                fdiv (Fin 1) za \<noteq> fdiv (Fin 1) zb) \<longrightarrow>
            (\<forall>p. last_fill (graphics rAB) p = last_fill (graphics rBA) p)) \<and>
           (\<forall>x y za.
              (x, y, za) \<in> set LA \<and> 0 < x \<and> x < viewportX r \<and> 0 < y \<and> y < viewportY r \<and>
              fgt (fdiv (Fin 1) za) (zbuffer r (x, y)) \<and>
              (\<forall>zb. (x, y, zb) \<in> set LB \<longrightarrow> fgt (fdiv (Fin 1) za) (fdiv (Fin 1) zb)) \<longrightarrow>
              last_fill (graphics rAB) (x, y) = Some brA \<and>
              last_fill (graphics rBA) (x, y) = Some brA)"
proof -
  let ?rA = "fold (paint brA) LA r" and ?rB = "fold (paint brB) LB r"
  let ?rAB = "fold (paint brB) LB ?rA" and ?rBA = "fold (paint brA) LA ?rB"
  have ab: "bindE (fillPolygon r a1 a2 a3 brA) (\<lambda>r'. fillPolygon r' b1 b2 b3 brB) = Inr ?rAB"
    by (simp add: fillPolygon_run [OF fits A] bindE_def
        fillPolygon_run [OF fold_paint_fits [OF fits] B])
  have ba: "bindE (fillPolygon r b1 b2 b3 brB) (\<lambda>r'. fillPolygon r' a1 a2 a3 brA) = Inr ?rBA"
    by (simp add: fillPolygon_run [OF fits B] bindE_def
        fillPolygon_run [OF fold_paint_fits [OF fits] A])
  have vAB: "view ?rAB p = (if inb r p then
                 fold (own brB) (cands p LB) (fold (own brA) (cands p LA) (view r p))
               else view r p)" for p
    by (simp add: view_fold inb_def)
  have vBA: "view ?rBA p = (if inb r p then
                 fold (own brA) (cands p LA) (fold (own brB) (cands p LB) (view r p))
               else view r p)" for p
    by (simp add: view_fold inb_def)
  have z: "zbuffer ?rAB = zbuffer ?rBA"
  proof
    fix p
    have "fst (view ?rAB p) = fst (view ?rBA p)"
      unfolding vAB vBA
      by (cases "view r p") (simp add: fold_own fold_higher_commute)
    then show "zbuffer ?rAB p = zbuffer ?rBA p" by (simp add: view_def)
  qed
  have own: "last_fill (graphics ?rAB) p = last_fill (graphics ?rBA) p"
    if d: "\<forall>x y za zb. (x, y, za) \<in> set LA \<and> (x, y, zb) \<in> set LB \<longrightarrow>
                fdiv (Fin 1) za \<noteq> fdiv (Fin 1) zb" for p
  proof -
    have dist: "ca \<noteq> cb" if "ca \<in> set (cands p LA)" "cb \<in> set (cands p LB)" for ca cb
    proof -
      from that obtain za zb where "(fst p, snd p, za) \<in> set LA" "ca = fdiv (Fin 1) za"
        "(fst p, snd p, zb) \<in> set LB" "cb = fdiv (Fin 1) zb"
        by (auto simp: cands_def)
      with d show ?thesis by blast
    qed
    have "view ?rAB p = view ?rBA p"
      unfolding vAB vBA
      by (cases "view r p") (simp add: owner_order [OF dist])
    then show ?thesis by (simp add: view_def)
  qed
  have closer: "last_fill (graphics ?rAB) (x, y) = Some brA \<and>
                last_fill (graphics ?rBA) (x, y) = Some brA"
    if mem: "(x, y, za) \<in> set LA"
      and bounds: "0 < x \<and> x < viewportX r \<and> 0 < y \<and> y < viewportY r"
      and pass: "fgt (fdiv (Fin 1) za) (zbuffer r (x, y))"
      and near: "\<forall>zb. (x, y, zb) \<in> set LB \<longrightarrow> fgt (fdiv (Fin 1) za) (fdiv (Fin 1) zb)"
    for x y za
  proof -
    have i: "inb r (x, y)" using bounds by (simp add: inb_def)
    have ca: "fdiv (Fin 1) za \<in> set (cands (x, y) LA)"
      using mem by (force simp: cands_def)
    have cb: "\<forall>cb\<in>set (cands (x, y) LB). fgt (fdiv (Fin 1) za) cb"
      using near by (auto simp: cands_def)
    have v: "view r (x, y) = (zbuffer r (x, y), last_fill (graphics r) (x, y))"
      by (simp add: view_def)
    have "snd (view ?rAB (x, y)) = Some brA" "snd (view ?rBA (x, y)) = Some brA"
      unfolding vAB vBA v using i owner_closer [OF ca pass cb] by simp_all
    then show ?thesis by (simp add: view_def)
  qed
  from ab ba z own closer show ?thesis by blast
qed

theorem fill_order_witness:
  "fits cleared \<and>
   fillPolygon_submits (Vector3 (Fin 2) (Fin 1) (Fin 1)) (Vector3 (Fin 4) (Fin 1) (Fin 1))
       (Vector3 (Fin 2) (Fin 3) (Fin 1)) =
     Inr [(2, 1, Fin 1), (3, 1, Fin 1), (4, 1, Fin 1), (2, 2, Fin 1), (3, 2, Fin 1)] \<and>
   fillPolygon_submits (Vector3 (Fin 1) (Fin 1) (Fin 2)) (Vector3 (Fin 3) (Fin 1) (Fin 2))
       (Vector3 (Fin 1) (Fin 3) (Fin 2)) =
     Inr [(1, 1, Fin 2), (2, 1, Fin 2), (3, 1, Fin 2), (1, 2, Fin 2), (2, 2, Fin 2)] \<and>
   (\<exists>rAB rBA.
      bindE (fillPolygon cleared (Vector3 (Fin 2) (Fin 1) (Fin 1)) (Vector3 (Fin 4) (Fin 1) (Fin 1))
               (Vector3 (Fin 2) (Fin 3) (Fin 1)) Yellow)
        (\<lambda>r'. fillPolygon r' (Vector3 (Fin 1) (Fin 1) (Fin 2)) (Vector3 (Fin 3) (Fin 1) (Fin 2))
               (Vector3 (Fin 1) (Fin 3) (Fin 2)) Blue) = Inr rAB \<and>
      bindE (fillPolygon cleared (Vector3 (Fin 1) (Fin 1) (Fin 2)) (Vector3 (Fin 3) (Fin 1) (Fin 2))
               (Vector3 (Fin 1) (Fin 3) (Fin 2)) Blue)
        (\<lambda>r'. fillPolygon r' (Vector3 (Fin 2) (Fin 1) (Fin 1)) (Vector3 (Fin 4) (Fin 1) (Fin 1))
               (Vector3 (Fin 2) (Fin 3) (Fin 1)) Yellow) = Inr rBA \<and>
      zbuffer rAB = zbuffer rBA \<and>
      (\<forall>p. last_fill (graphics rAB) p = last_fill (graphics rBA) p) \<and>
      last_fill (graphics rAB) (2, 1) = Some Yellow \<and>
      last_fill (graphics rBA) (2, 1) = Some Yellow)"
proof -
  let ?LA = "[(2, 1, Fin 1), (3, 1, Fin 1), (4, 1, Fin 1), (2, 2, Fin 1), (3, 2, Fin 1)]
               :: (int \<times> int \<times> float) list"
  let ?LB = "[(1, 1, Fin 2), (2, 1, Fin 2), (3, 1, Fin 2), (1, 2, Fin 2), (2, 2, Fin 2)]
               :: (int \<times> int \<times> float) list"
  have f: "fits cleared" by (simp add: fits_def cleared_def)
  have A: "fillPolygon_submits (Vector3 (Fin 2) (Fin 1) (Fin 1)) (Vector3 (Fin 4) (Fin 1) (Fin 1))
       (Vector3 (Fin 2) (Fin 3) (Fin 1)) = Inr ?LA"
    by (simp add: fillPolygon_submits_def fill_defs)
  have B: "fillPolygon_submits (Vector3 (Fin 1) (Fin 1) (Fin 2)) (Vector3 (Fin 3) (Fin 1) (Fin 2))
       (Vector3 (Fin 1) (Fin 3) (Fin 2)) = Inr ?LB"
    by (simp add: fillPolygon_submits_def fill_defs)
  have d: "\<forall>x y za zb. (x, y, za) \<in> set ?LA \<and> (x, y, zb) \<in> set ?LB \<longrightarrow>
             fdiv (Fin 1) za \<noteq> fdiv (Fin 1) zb"
    by auto
  have c: "(2, 1, Fin 1) \<in> set ?LA \<and> (0::int) < 2 \<and> 2 < viewportX cleared \<and>
           (0::int) < 1 \<and> 1 < viewportY cleared \<and>
           fgt (fdiv (Fin 1) (Fin 1)) (zbuffer cleared (2, 1)) \<and>
           (\<forall>zb. (2, 1, zb) \<in> set ?LB \<longrightarrow> fgt (fdiv (Fin 1) (Fin 1)) (fdiv (Fin 1) zb))"
    by (simp add: cleared_def fgt_def)
  from fill_order [OF f A B, of Yellow Blue] obtain rAB rBA where
    ab: "bindE (fillPolygon cleared (Vector3 (Fin 2) (Fin 1) (Fin 1)) (Vector3 (Fin 4) (Fin 1) (Fin 1))
               (Vector3 (Fin 2) (Fin 3) (Fin 1)) Yellow)
        (\<lambda>r'. fillPolygon r' (Vector3 (Fin 1) (Fin 1) (Fin 2)) (Vector3 (Fin 3) (Fin 1) (Fin 2))
               (Vector3 (Fin 1) (Fin 3) (Fin 2)) Blue) = Inr rAB"
    and ba: "bindE (fillPolygon cleared (Vector3 (Fin 1) (Fin 1) (Fin 2)) (Vector3 (Fin 3) (Fin 1) (Fin 2))
               (Vector3 (Fin 1) (Fin 3) (Fin 2)) Blue)
        (\<lambda>r'. fillPolygon r' (Vector3 (Fin 2) (Fin 1) (Fin 1)) (Vector3 (Fin 4) (Fin 1) (Fin 1))
               (Vector3 (Fin 2) (Fin 3) (Fin 1)) Yellow) = Inr rBA"
    and z: "zbuffer rAB = zbuffer rBA"
    and o: "(\<forall>x y za zb. (x, y, za) \<in> set ?LA \<and> (x, y, zb) \<in> set ?LB \<longrightarrow>
                fdiv (Fin 1) za \<noteq> fdiv (Fin 1) zb) \<longrightarrow>
            (\<forall>p. last_fill (graphics rAB) p = last_fill (graphics rBA) p)"
    and n: "\<forall>x y za.
              (x, y, za) \<in> set ?LA \<and> 0 < x \<and> x < viewportX cleared \<and> 0 < y \<and> y < viewportY cleared \<and>
              fgt (fdiv (Fin 1) za) (zbuffer cleared (x, y)) \<and>
              (\<forall>zb. (x, y, zb) \<in> set ?LB \<longrightarrow> fgt (fdiv (Fin 1) za) (fdiv (Fin 1) zb)) \<longrightarrow>
              last_fill (graphics rAB) (x, y) = Some Yellow \<and>
              last_fill (graphics rBA) (x, y) = Some Yellow"
    by blast
  from o d have o': "\<forall>p. last_fill (graphics rAB) p = last_fill (graphics rBA) p" by blast
  from n c have "last_fill (graphics rAB) (2, 1) = Some Yellow \<and>
                 last_fill (graphics rBA) (2, 1) = Some Yellow" by blast
  with f A B ab ba z o' show ?thesis by blast
qed

end
